theory Spec2Isabelle
  imports Main "HOL-Library.Sublist"
begin

section \<open>Candidate form submissions: the submission-to-publication pipeline\<close>

text \<open>
  A shallow embedding of \<^verbatim>\<open>src/infra/compute/index.ts\<close> (the Azure Function
  \<^verbatim>\<open>submitCandidate\<close> and its helpers) and of the types of \<^verbatim>\<open>types.ts\<close>.

  A string is the list of the bytes of its UTF-8 encoding, the form in which the request
  body arrives and in which files and records leave. A character outside ASCII is a
  sequence of two to four bytes, each of them at least \<^verbatim>\<open>0x80\<close>, so the character classes
  \<^verbatim>\<open>[a-z0-9]\<close>, \<^verbatim>\<open>\w\<close> and the searches for \<^verbatim>\<open>.\<close>, \<^verbatim>\<open>/\<close>, \<^verbatim>\<open>-\<close> and \<^verbatim>\<open>,\<close> see
  the same characters on the bytes as on the UTF-16 code units of the source. The class
  \<^verbatim>\<open>\s\<close> is the full list of the ECMAScript white space and line terminators, and the
  Unicode case mapping of \<^verbatim>\<open>toLowerCase\<close>, a table that is not part of the source, is a
  parameter.
\<close>
subsection \<open>Characters and the string primitives of the source\<close>

definition is_upper :: "char \<Rightarrow> bool" where
  "is_upper c = (65 \<le> (of_char c :: nat) \<and> (of_char c :: nat) \<le> 90)"

definition lower_char :: "char \<Rightarrow> char" where
  "lower_char c = (if is_upper c then char_of ((of_char c :: nat) + 32) else c)"

text \<open>\<^verbatim>\<open>String.prototype.toLowerCase\<close>. The Unicode case mapping is a table of the
  platform; it is the parameter \<open>lc\<close>, a function on whole strings because the mapping of
  a character may depend on its neighbours (the final sigma) and may change the length
  (U+0130). What the theorems below need of it is stated by \<open>case_mapping\<close>.\<close>

definition toLowerCase :: "(string \<Rightarrow> string) \<Rightarrow> string \<Rightarrow> string" where
  "toLowerCase lc s = lc s"

text \<open>The character class \<^verbatim>\<open>[a-z0-9]\<close>.\<close>

definition is_lower_alnum :: "char \<Rightarrow> bool" where
  "is_lower_alnum c =
     ((97 \<le> (of_char c :: nat) \<and> (of_char c :: nat) \<le> 122) \<or>
      (48 \<le> (of_char c :: nat) \<and> (of_char c :: nat) \<le> 57))"

text \<open>The character class \<^verbatim>\<open>\w\<close>, that is \<^verbatim>\<open>[A-Za-z0-9_]\<close>.\<close>

definition is_word_char :: "char \<Rightarrow> bool" where
  "is_word_char c = (is_lower_alnum c \<or> is_upper c \<or> c = CHR ''_'')"

text \<open>The character class \<^verbatim>\<open>\s\<close>, which is also what \<^verbatim>\<open>trim\<close> removes: the white
  space and the line terminators of ECMAScript, U+0009 to U+000D, U+0020, U+00A0, U+1680,
  U+2000 to U+200A, U+2028, U+2029, U+202F, U+205F, U+3000 and U+FEFF, each as its UTF-8
  encoding.\<close>

definition white_space :: "string list" where
  "white_space =
     [[CHR 0x09], [CHR 0x0A], [CHR 0x0B], [CHR 0x0C], [CHR 0x0D], [CHR 0x20],
      [CHR 0xC2, CHR 0xA0],
      [CHR 0xE1, CHR 0x9A, CHR 0x80],
      [CHR 0xE2, CHR 0x80, CHR 0x80], [CHR 0xE2, CHR 0x80, CHR 0x81],
      [CHR 0xE2, CHR 0x80, CHR 0x82], [CHR 0xE2, CHR 0x80, CHR 0x83],
      [CHR 0xE2, CHR 0x80, CHR 0x84], [CHR 0xE2, CHR 0x80, CHR 0x85],
      [CHR 0xE2, CHR 0x80, CHR 0x86], [CHR 0xE2, CHR 0x80, CHR 0x87],
      [CHR 0xE2, CHR 0x80, CHR 0x88], [CHR 0xE2, CHR 0x80, CHR 0x89],
      [CHR 0xE2, CHR 0x80, CHR 0x8A],
      [CHR 0xE2, CHR 0x80, CHR 0xA8], [CHR 0xE2, CHR 0x80, CHR 0xA9],
      [CHR 0xE2, CHR 0x80, CHR 0xAF],
      [CHR 0xE2, CHR 0x81, CHR 0x9F],
      [CHR 0xE3, CHR 0x80, CHR 0x80],
      [CHR 0xEF, CHR 0xBB, CHR 0xBF]]"

text \<open>The number of bytes of the white-space character a string starts with, and of the
  one it ends with; \<open>0\<close> when there is none.\<close>

definition space_at :: "string \<Rightarrow> nat" where
  "space_at s =
     (case find (\<lambda>ws. prefix ws s) white_space of None \<Rightarrow> 0 | Some ws \<Rightarrow> length ws)"

definition space_end :: "string \<Rightarrow> nat" where
  "space_end s =
     (case find (\<lambda>ws. suffix ws s) white_space of None \<Rightarrow> 0 | Some ws \<Rightarrow> length ws)"

lemma space_at_le: "space_at s \<le> length s"
proof (cases "find (\<lambda>ws. prefix ws s) white_space")
  case None
  then show ?thesis by (simp add: space_at_def)
next
  case (Some ws)
  then have "prefix ws s" by (auto simp: find_Some_iff)
  then show ?thesis using Some by (simp add: space_at_def prefix_length_le)
qed

lemma space_end_le: "space_end s \<le> length s"
proof (cases "find (\<lambda>ws. suffix ws s) white_space")
  case None
  then show ?thesis by (simp add: space_end_def)
next
  case (Some ws)
  then have "suffix ws s" by (auto simp: find_Some_iff)
  then show ?thesis using Some by (simp add: space_end_def suffix_length_le)
qed

text \<open>The string after its leading white space, and before its trailing white space.\<close>

function skip_spaces :: "string \<Rightarrow> string" where
  "skip_spaces s = (if 0 < space_at s then skip_spaces (drop (space_at s) s) else s)"
  by pat_completeness auto
termination
proof (relation "measure length")
  show "wf (measure length)" by simp
next
  fix s :: string
  assume "0 < space_at s"
  with space_at_le [of s] show "(drop (space_at s) s, s) \<in> measure length" by simp
qed

function drop_trailing_spaces :: "string \<Rightarrow> string" where
  "drop_trailing_spaces s =
     (if 0 < space_end s then drop_trailing_spaces (take (length s - space_end s) s) else s)"
  by pat_completeness auto
termination
proof (relation "measure length")
  show "wf (measure length)" by simp
next
  fix s :: string
  assume "0 < space_end s"
  with space_end_le [of s] show "(take (length s - space_end s) s, s) \<in> measure length" by simp
qed

declare skip_spaces.simps [simp del]
declare drop_trailing_spaces.simps [simp del]

text \<open>\<^verbatim>\<open>s.lastIndexOf(c)\<close>; \<open>None\<close> stands for the result \<^verbatim>\<open>-1\<close>.\<close>

fun lastIndexOf :: "char \<Rightarrow> string \<Rightarrow> nat option" where
  "lastIndexOf c [] = None"
| "lastIndexOf c (x # xs) =
     (case lastIndexOf c xs of
        Some i \<Rightarrow> Some (Suc i)
      | None \<Rightarrow> if x = c then Some 0 else None)"

text \<open>\<^verbatim>\<open>s.split(sep)\<close> for a one-character separator: the result is never empty, and
  \<^verbatim>\<open>"".split(sep)\<close> is \<^verbatim>\<open>[""]\<close>.\<close>

fun split_on :: "char \<Rightarrow> string \<Rightarrow> string list" where
  "split_on sep [] = [[]]"
| "split_on sep (c # cs) =
     (if c = sep then [] # split_on sep cs
      else (case split_on sep cs of
              [] \<Rightarrow> [[c]]
            | w # ws \<Rightarrow> (c # w) # ws))"

text \<open>\<^verbatim>\<open>String.prototype.trim\<close>.\<close>

definition trim :: "string \<Rightarrow> string" where
  "trim s = drop_trailing_spaces (skip_spaces s)"

text \<open>\<^verbatim>\<open>s.endsWith(t)\<close>.\<close>

definition endsWith :: "string \<Rightarrow> string \<Rightarrow> bool" where
  "endsWith s t = (length t \<le> length s \<and> drop (length s - length t) s = t)"

subsection \<open>Content Normalizer: \<^verbatim>\<open>normalizeFilename\<close>\<close>

text \<open>\<^verbatim>\<open>.replace(/[^a-z0-9]+/g, '-')\<close>: every maximal run of characters outside
  \<^verbatim>\<open>[a-z0-9]\<close> becomes one dash.\<close>

function dash_runs :: "string \<Rightarrow> string" where
  "dash_runs [] = []"
| "dash_runs (c # cs) =
     (if is_lower_alnum c then c # dash_runs cs
      else CHR ''-'' # dash_runs (dropWhile (\<lambda>d. \<not> is_lower_alnum d) cs))"
  by pat_completeness auto
termination
  by (relation "measure length") (auto simp: less_Suc_eq_le length_dropWhile_le)

text \<open>\<^verbatim>\<open>.replace(/^-+|-+$/g, '')\<close>: the leading run and the trailing run of dashes are
  removed.\<close>

definition trim_dashes :: "string \<Rightarrow> string" where
  "trim_dashes s =
     rev (dropWhile (\<lambda>c. c = CHR ''-'') (rev (dropWhile (\<lambda>c. c = CHR ''-'') s)))"

text \<open>The chain \<^verbatim>\<open>name.toLowerCase().replace(...).replace(...)\<close> of \<^verbatim>\<open>normalizeFilename\<close>.\<close>

definition normalize_base :: "(string \<Rightarrow> string) \<Rightarrow> string \<Rightarrow> string" where
  "normalize_base lc name = trim_dashes (dash_runs (toLowerCase lc name))"

text \<open>\<^verbatim>\<open>const name = lastDot > 0 ? filename.substring(0, lastDot) : filename\<close> and
  \<^verbatim>\<open>const ext = lastDot > 0 ? filename.substring(lastDot) : ''\<close>.\<close>

definition name_part :: "string \<Rightarrow> string" where
  "name_part filename =
     (case lastIndexOf CHR ''.'' filename of
        Some (Suc i) \<Rightarrow> take (Suc i) filename
      | _ \<Rightarrow> filename)"

definition ext_part :: "string \<Rightarrow> string" where
  "ext_part filename =
     (case lastIndexOf CHR ''.'' filename of
        Some (Suc i) \<Rightarrow> drop (Suc i) filename
      | _ \<Rightarrow> [])"

definition normalizeFilename :: "(string \<Rightarrow> string) \<Rightarrow> string \<Rightarrow> string" where
  "normalizeFilename lc filename =
     normalize_base lc (name_part filename) @ toLowerCase lc (ext_part filename)"

text \<open>Shapes of a normalised base name, used to state what \<^verbatim>\<open>normalizeFilename\<close>
  guarantees: only \<^verbatim>\<open>[a-z0-9-]\<close>, no two dashes in a row, no dash at either end.\<close>

definition no_double_dash :: "string \<Rightarrow> bool" where
  "no_double_dash t = successively (\<lambda>a b. \<not> (a = CHR ''-'' \<and> b = CHR ''-'')) t"

definition base_chars :: "string \<Rightarrow> bool" where
  "base_chars t = list_all (\<lambda>c. is_lower_alnum c \<or> c = CHR ''-'') t"

definition canonical_base :: "string \<Rightarrow> bool" where
  "canonical_base t =
     (base_chars t \<and> no_double_dash t \<and>
      (t = [] \<or> (hd t \<noteq> CHR ''-'' \<and> last t \<noteq> CHR ''-'')))"

text \<open>The base name as the specification describes it: the maximal runs of characters of
  \<^verbatim>\<open>[a-z0-9]\<close> in the lower-cased name, joined by single dashes.\<close>

function alnum_runs :: "string \<Rightarrow> string list" where
  "alnum_runs [] = []"
| "alnum_runs (c # cs) =
     (if is_lower_alnum c
      then takeWhile is_lower_alnum (c # cs) # alnum_runs (dropWhile is_lower_alnum cs)
      else alnum_runs cs)"
  by pat_completeness auto
termination
  by (relation "measure length") (auto simp: less_Suc_eq_le length_dropWhile_le)

fun dashed :: "string list \<Rightarrow> string" where
  "dashed [] = []"
| "dashed [r] = r"
| "dashed (r # r' # rs) = r @ CHR ''-'' # dashed (r' # rs)"

text \<open>What is used of the case mapping \<open>lc\<close>, all of it true of the Unicode mapping: the
  empty string is mapped to itself; a lower-cased string stays as it is when it is
  lower-cased again, also behind ASCII characters that are not capital letters; a full
  stop at the start is kept and has no influence on what follows; and no other character
  becomes a full stop.\<close>

definition plain_char :: "char \<Rightarrow> bool" where
  "plain_char c = ((of_char c :: nat) < 128 \<and> \<not> is_upper c)"

definition case_mapping :: "(string \<Rightarrow> string) \<Rightarrow> bool" where
  "case_mapping lc =
     (lc [] = [] \<and>
      (\<forall>x y. list_all plain_char x \<longrightarrow> lc (x @ lc y) = x @ lc y) \<and>
      (\<forall>x. lc (CHR ''.'' # x) = CHR ''.'' # lc x) \<and>
      (\<forall>x. CHR ''.'' \<notin> set x \<longrightarrow> CHR ''.'' \<notin> set (lc x)))"

subsection \<open>Content Normalizer: \<^verbatim>\<open>escapeRegex\<close> and \<^verbatim>\<open>normalizeMarkdownImagePaths\<close>\<close>

definition backslash :: char where
  "backslash = CHR 0x5C"

definition dquote :: char where
  "dquote = CHR 0x22"

text \<open>The characters of the class \<^verbatim>\<open>[.*+?^${}()|[\]\\]\<close> of \<^verbatim>\<open>escapeRegex\<close>.\<close>

definition regex_special :: "char \<Rightarrow> bool" where
  "regex_special c = (c \<in> set ''.*+?^${}()|[]'' \<or> c = backslash)"

text \<open>\<^verbatim>\<open>str.replace(/[.*+?^${}()|[\]\\]/g, '\\$&')\<close>: a backslash goes in front of every
  special character.\<close>

definition escapeRegex :: "string \<Rightarrow> string" where
  "escapeRegex str = concat (map (\<lambda>c. if regex_special c then [backslash, c] else [c]) str)"

text \<open>
  The three regular expressions of \<^verbatim>\<open>normalizeMarkdownImagePaths\<close> have the source
  \<^verbatim>\<open>!\[([^\]]*)\]\(\<close>, then a path pattern, then \<^verbatim>\<open>\)\<close>. The path pattern is text
  in which a backslash followed by a character matches that character and any other
  character matches itself; \<open>match_escaped\<close> matches such a pattern at the start of a
  string and returns what follows the match.
\<close>

fun match_escaped :: "string \<Rightarrow> string \<Rightarrow> string option" where
  "match_escaped [] s = Some s"
| "match_escaped [c] s =
     (case s of [] \<Rightarrow> None | x # xs \<Rightarrow> if x = c then Some xs else None)"
| "match_escaped (c # d # p) s =
     (if c = backslash then
        (case s of [] \<Rightarrow> None | x # xs \<Rightarrow> if x = d then match_escaped p xs else None)
      else
        (case s of [] \<Rightarrow> None | x # xs \<Rightarrow> if x = c then match_escaped (d # p) xs else None))"

text \<open>The path patterns built for one key of the image map, in the order of the array
  \<^verbatim>\<open>patterns\<close>: the key itself, the key under \<^verbatim>\<open>./../../assets/images/\<close> and the key
  under \<^verbatim>\<open>images/\<close>.\<close>

definition esc :: "char \<Rightarrow> string" where
  "esc c = [backslash, c]"

definition up_level_src :: string where
  "up_level_src =
     esc CHR ''.'' @ esc CHR ''/'' @ esc CHR ''.'' @ esc CHR ''.'' @ esc CHR ''/'' @
     esc CHR ''.'' @ esc CHR ''.'' @ esc CHR ''/'' @ ''assets'' @ esc CHR ''/'' @
     ''images'' @ esc CHR ''/''"

definition images_src :: string where
  "images_src = ''images'' @ esc CHR ''/''"

definition patterns :: "string \<Rightarrow> string list" where
  "patterns originalPath =
     [escapeRegex originalPath,
      up_level_src @ escapeRegex originalPath,
      images_src @ escapeRegex originalPath]"

text \<open>
  A match of \<^verbatim>\<open>!\[([^\]]*)\]\(PATH\)\<close> at the start of a string: the capture group
  (the alt text) and the rest after the match. The group \<^verbatim>\<open>[^\]]*\<close> is greedy, and since
  it must be followed by \<^verbatim>\<open>]\<close> it takes every character up to the first \<^verbatim>\<open>]\<close>.
\<close>

definition match_image_ref :: "string \<Rightarrow> string \<Rightarrow> (string \<times> string) option" where
  "match_image_ref pat s =
     (case s of
        a # b # s1 \<Rightarrow>
          if a = CHR ''!'' \<and> b = CHR ''['' then
            (case dropWhile (\<lambda>c. c \<noteq> CHR '']'') s1 of
               r # p # s3 \<Rightarrow>
                 if p = CHR ''('' then
                   (case match_escaped pat s3 of
                      Some (q # rest) \<Rightarrow>
                        if q = CHR '')''
                        then Some (takeWhile (\<lambda>c. c \<noteq> CHR '']'') s1, rest)
                        else None
                    | _ \<Rightarrow> None)
                 else None
             | _ \<Rightarrow> None)
          else None
      | _ \<Rightarrow> None)"

text \<open>
  The replacement text of \<^verbatim>\<open>String.prototype.replace\<close> (GetSubstitution) for a regular
  expression with one capture group: \<^verbatim>\<open>$$\<close> is a dollar sign, \<^verbatim>\<open>$&\<close> the match,
  \<^verbatim>\<open>$`\<close> the text before the match, \<^verbatim>\<open>$'\<close> the text after it, \<^verbatim>\<open>$1\<close> and
  \<^verbatim>\<open>$01\<close> the group; every other \<^verbatim>\<open>$\<close> stands for itself.
\<close>

fun get_substitution :: "string \<Rightarrow> string \<Rightarrow> string \<Rightarrow> string \<Rightarrow> string \<Rightarrow> string" where
  "get_substitution [] matched pre post grp = []"
| "get_substitution [c] matched pre post grp = [c]"
| "get_substitution (c # d # t) matched pre post grp =
     (if c \<noteq> CHR ''$'' then c # get_substitution (d # t) matched pre post grp
      else if d = CHR ''$'' then CHR ''$'' # get_substitution t matched pre post grp
      else if d = CHR ''&'' then matched @ get_substitution t matched pre post grp
      else if d = CHR 0x60 then pre @ get_substitution t matched pre post grp
      else if d = CHR 0x27 then post @ get_substitution t matched pre post grp
      else if d = CHR ''1'' then grp @ get_substitution t matched pre post grp
      else if d = CHR ''0'' then
        (case t of
           [] \<Rightarrow> ''$0''
         | e # t' \<Rightarrow>
             if e = CHR ''1'' then grp @ get_substitution t' matched pre post grp
             else if e = CHR ''0'' then ''$00'' @ get_substitution t' matched pre post grp
             else ''$0'' @ get_substitution (e # t') matched pre post grp)
      else CHR ''$'' # get_substitution (d # t) matched pre post grp)"

lemma match_escaped_shorter: "match_escaped pat s = Some rest \<Longrightarrow> length rest \<le> length s"
  by (induction pat s rule: match_escaped.induct) (auto split: list.splits if_splits)

lemma match_image_ref_shorter:
  assumes "match_image_ref pat s = Some (alt, rest)"
  shows "length rest < length s"
proof -
  from assms obtain s1 r s3 q where s: "s = CHR ''!'' # CHR ''['' # s1"
    and d: "dropWhile (\<lambda>c. c \<noteq> CHR '']'') s1 = r # CHR ''('' # s3"
    and m: "match_escaped pat s3 = Some (q # rest)"
    unfolding match_image_ref_def
    by (auto split: list.splits if_splits option.splits)
  have "length (q # rest) \<le> length s3" using m by (rule match_escaped_shorter)
  moreover have "length (r # CHR ''('' # s3) \<le> length s1"
    using length_dropWhile_le [of "\<lambda>c. c \<noteq> CHR '']''" s1] d by simp
  ultimately show ?thesis using s by simp
qed

text \<open>\<^verbatim>\<open>updated.replace(pattern, replacement)\<close> with the \<^verbatim>\<open>g\<close> flag: the string is
  scanned from the left; where the pattern matches, the expanded replacement is written
  and the scan goes on after the match; elsewhere the character is kept. \<open>passed\<close> is
  the part of the string already passed.\<close>

function replace_all :: "string \<Rightarrow> string \<Rightarrow> string \<Rightarrow> string \<Rightarrow> string" where
  "replace_all pat replacement passed [] = []"
| "replace_all pat replacement passed (c # cs) =
     (case match_image_ref pat (c # cs) of
        Some (alt, rest) \<Rightarrow>
          (let matched = take (length (c # cs) - length rest) (c # cs)
           in get_substitution replacement matched passed rest alt @
              replace_all pat replacement (passed @ matched) rest)
      | None \<Rightarrow> c # replace_all pat replacement (passed @ [c]) cs)"
  by pat_completeness auto
termination
  by (relation "measure (\<lambda>(pat, replacement, passed, s). length s)")
     (auto dest: match_image_ref_shorter)

text \<open>The replacement \<^verbatim>\<open>`![$1](${normalizedPath})`\<close>.\<close>

definition replacement_for :: "string \<Rightarrow> string" where
  "replacement_for normalizedPath = ''![$1]('' @ normalizedPath @ '')''"

text \<open>The image map is a JavaScript \<^verbatim>\<open>Map\<close>: an association list in insertion order;
  \<^verbatim>\<open>set\<close> on a key that is already there changes its value in place.\<close>

type_synonym image_map = "(string \<times> string) list"

fun map_set :: "string \<Rightarrow> string \<Rightarrow> image_map \<Rightarrow> image_map" where
  "map_set k v [] = [(k, v)]"
| "map_set k v ((k', v') # m) = (if k' = k then (k, v) # m else (k', v') # map_set k v m)"

text \<open>\<^verbatim>\<open>imageMap.forEach\<close> over the entries and \<^verbatim>\<open>patterns.forEach\<close> over the three
  patterns, each replacement working on the result of the one before.\<close>

definition normalizeMarkdownImagePaths :: "string \<Rightarrow> image_map \<Rightarrow> string" where
  "normalizeMarkdownImagePaths content imageMap =
     foldl (\<lambda>updated (originalPath, normalizedPath).
              foldl (\<lambda>u pat. replace_all pat (replacement_for normalizedPath) [] u)
                    updated (patterns originalPath))
           content imageMap"

subsection \<open>The data model of \<^verbatim>\<open>types.ts\<close>\<close>

text \<open>An optional field (\<^verbatim>\<open>website?: string\<close>) is an \<open>option\<close>; \<open>None\<close> is a field
  that is absent. A required field follows its declared type \<^verbatim>\<open>string\<close>; for the test
  \<^verbatim>\<open>!submission.candidate\<close> a missing value and the empty string behave alike, so a missing
  required field is the empty string.\<close>

record image_asset =
  img_path :: string
  img_content :: string

record CandidateSubmission =
  title :: string
  candidate :: string
  party :: string
  electionDate :: string
  categories :: "string list"
  tags :: "string list"
  about :: string
  website :: "string option"
  content :: string
  titleImage :: "string option"
  avatarImage :: "string option"
  additionalImages :: "image_asset list option"
  contactEmail :: string
  contactPhone :: "string option"
  contactNotes :: "string option"
  submitterName :: "string option"
  submitterRelationship :: "string option"
  turnstileToken :: string

text \<open>Record fields are constants, so a field name can be used once: the fields of an
  image carry the prefix \<open>img_\<close>, and the fields of \<^verbatim>\<open>ContactRecord\<close> and of
  \<^verbatim>\<open>SubmissionResponse\<close> carry a prefix where the source uses the name of a submission
  field again.\<close>

record ContactRecord =
  correlationId :: string
  submittedAt :: string
  rec_contactEmail :: string
  rec_contactPhone :: "string option"
  rec_contactNotes :: "string option"
  rec_submitterName :: "string option"
  rec_submitterRelationship :: "string option"
  candidateName :: string
  pullRequestUrl :: string

record SubmissionResponse =
  success :: bool
  message :: string
  errors :: "string list option"
  resp_correlationId :: "string option"
  resp_pullRequestUrl :: "string option"

text \<open>JavaScript truthiness of an optional string: present and not empty.\<close>

definition truthy :: "string option \<Rightarrow> bool" where
  "truthy v = (case v of None \<Rightarrow> False | Some s \<Rightarrow> s \<noteq> [])"

text \<open>\<^verbatim>\<open>v || ""\<close> for an optional string.\<close>

definition or_empty :: "string option \<Rightarrow> string" where
  "or_empty v = (case v of None \<Rightarrow> [] | Some s \<Rightarrow> s)"

text \<open>\<^verbatim>\<open>Array.prototype.join\<close>.\<close>

fun join :: "string \<Rightarrow> string list \<Rightarrow> string" where
  "join sep [] = []"
| "join sep [x] = x"
| "join sep (x # y # ys) = x @ sep @ join sep (y # ys)"

subsection \<open>Content Normalizer: \<^verbatim>\<open>generateFrontmatter\<close>\<close>

definition hex_digit :: "nat \<Rightarrow> char" where
  "hex_digit n = (if n < 10 then char_of (48 + n) else char_of (87 + n))"

text \<open>\<^verbatim>\<open>JSON.stringify\<close> of a string: the quotation mark, the backslash and the control
  characters are escaped.\<close>

definition json_escape_char :: "char \<Rightarrow> string" where
  "json_escape_char c =
     (if c = dquote then [backslash, dquote]
      else if c = backslash then [backslash, backslash]
      else if (of_char c :: nat) = 8 then [backslash, CHR ''b'']
      else if (of_char c :: nat) = 9 then [backslash, CHR ''t'']
      else if (of_char c :: nat) = 10 then [backslash, CHR ''n'']
      else if (of_char c :: nat) = 12 then [backslash, CHR ''f'']
      else if (of_char c :: nat) = 13 then [backslash, CHR ''r'']
      else if (of_char c :: nat) < 32 then
        [backslash, CHR ''u'', CHR ''0'', CHR ''0'',
         hex_digit ((of_char c :: nat) div 16), hex_digit ((of_char c :: nat) mod 16)]
      else [c])"

definition json_string :: "string \<Rightarrow> string" where
  "json_string s = [dquote] @ concat (map json_escape_char s) @ [dquote]"

text \<open>\<^verbatim>\<open>JSON.stringify\<close> of an array of strings.\<close>

definition json_string_array :: "string list \<Rightarrow> string" where
  "json_string_array xs = ''['' @ join '','' (map json_string xs) @ '']''"

text \<open>\<^verbatim>\<open>submission.about.replace(/"/g, '\\"')\<close>.\<close>

definition escape_quotes :: "string \<Rightarrow> string" where
  "escape_quotes s = concat (map (\<lambda>c. if c = dquote then [backslash, dquote] else [c]) s)"

definition quoted :: "string \<Rightarrow> string" where
  "quoted s = [dquote] @ s @ [dquote]"

definition newline :: string where
  "newline = [CHR 0x0A]"

definition generateFrontmatter ::
  "CandidateSubmission \<Rightarrow> string option \<Rightarrow> string option \<Rightarrow> string" where
  "generateFrontmatter submission avatarFilename imageFilename =
     (let optionalFields =
            (if truthy (website submission)
             then [''website: '' @ quoted (or_empty (website submission))]
             else []);
          optionalBlock =
            (if 0 < length optionalFields then newline @ join newline optionalFields else [])
      in ''---'' @ newline @
         ''title: '' @ quoted (title submission) @ newline @
         ''meta_title: '' @ quoted (candidate submission @ '' for '' @ title submission) @ newline @
         ''description: '' @ quoted (candidate submission @ '' for '' @ title submission) @ newline @
         ''candidate: '' @ quoted (candidate submission) @ newline @
         ''party: '' @ quoted (party submission) @ newline @
         ''election_date: '' @ electionDate submission @ ''T12:00:00Z'' @ newline @
         ''image: '' @ quoted (or_empty imageFilename) @ newline @
         ''categories: '' @ json_string_array (categories submission) @ newline @
         ''tags: '' @ json_string_array (tags submission) @ newline @
         ''draft: false'' @ newline @
         ''avatar: '' @ quoted (or_empty avatarFilename) @ newline @
         ''about: '' @ quoted (escape_quotes (about submission)) @ optionalBlock @ newline @
         ''---'' @ newline @
         newline @
         content submission @ newline)"

text \<open>The front matter as the specification describes it: the metadata lines in their
  fixed order, and the website line last when the website is given.\<close>

definition fixed_lines ::
  "CandidateSubmission \<Rightarrow> string option \<Rightarrow> string option \<Rightarrow> string list" where
  "fixed_lines s avatarName imageName =
     [''title: '' @ quoted (title s),
      ''meta_title: '' @ quoted (candidate s @ '' for '' @ title s),
      ''description: '' @ quoted (candidate s @ '' for '' @ title s),
      ''candidate: '' @ quoted (candidate s),
      ''party: '' @ quoted (party s),
      ''election_date: '' @ electionDate s @ ''T12:00:00Z'',
      ''image: '' @ quoted (case imageName of None \<Rightarrow> [] | Some n \<Rightarrow> n),
      ''categories: '' @ json_string_array (categories s),
      ''tags: '' @ json_string_array (tags s),
      ''draft: false'',
      ''avatar: '' @ quoted (case avatarName of None \<Rightarrow> [] | Some n \<Rightarrow> n),
      ''about: '' @ quoted (escape_quotes (about s))]"

definition website_lines :: "CandidateSubmission \<Rightarrow> string list" where
  "website_lines s =
     (case website s of
        None \<Rightarrow> []
      | Some w \<Rightarrow> if w = [] then [] else [''website: '' @ quoted w])"

definition frontmatter_document ::
  "CandidateSubmission \<Rightarrow> string option \<Rightarrow> string option \<Rightarrow> string" where
  "frontmatter_document s avatarName imageName =
     ''---'' @ newline @
     concat (map (\<lambda>l. l @ newline) (fixed_lines s avatarName imageName @ website_lines s)) @
     ''---'' @ newline @ newline @ content s @ newline"

subsection \<open>Publication Orchestrator: slug, branch name and target directory\<close>

text \<open>\<^verbatim>\<open>.replace(/\s+/g, "-")\<close>: every maximal run of white space becomes one dash.\<close>

lemma skip_spaces_le: "length (skip_spaces s) \<le> length s"
proof (induction s rule: skip_spaces.induct)
  case (1 s)
  show ?case
  proof (cases "0 < space_at s")
    case True
    with 1 have "length (skip_spaces (drop (space_at s) s)) \<le> length (drop (space_at s) s)"
      by simp
    with True show ?thesis by (subst skip_spaces.simps) simp
  next
    case False
    then show ?thesis by (subst skip_spaces.simps) simp
  qed
qed

lemma skip_spaces_less: "0 < space_at s \<Longrightarrow> length (skip_spaces s) < length s"
  using skip_spaces_le [of "drop (space_at s) s"] space_at_le [of s]
  by (subst skip_spaces.simps) simp

function space_runs :: "string \<Rightarrow> string" where
  "space_runs [] = []"
| "space_runs (c # cs) =
     (if 0 < space_at (c # cs) then CHR ''-'' # space_runs (skip_spaces (c # cs))
      else c # space_runs cs)"
  by pat_completeness auto
termination
  by (relation "measure length") (auto dest: skip_spaces_less)

text \<open>\<^verbatim>\<open>submission.candidate.toLowerCase().replace(/\s+/g, "-").replace(/[^a-z0-9-]/g, "")\<close>.\<close>

definition slug :: "(string \<Rightarrow> string) \<Rightarrow> CandidateSubmission \<Rightarrow> string" where
  "slug lc submission =
     filter (\<lambda>c. is_lower_alnum c \<or> c = CHR ''-'')
       (space_runs (toLowerCase lc (candidate submission)))"

text \<open>\<^verbatim>\<open>correlationId.slice(0, 8)\<close> is \<open>take 8\<close>: the correlation ID is the result of
  \<^verbatim>\<open>randomUUID\<close>, ASCII, where bytes and code units are the same.\<close>

definition branchName :: "(string \<Rightarrow> string) \<Rightarrow> CandidateSubmission \<Rightarrow> string \<Rightarrow> string" where
  "branchName lc submission cid = ''form-'' @ slug lc submission @ ''-'' @ take 8 cid"

text \<open>\<^verbatim>\<open>submission.electionDate.split('-')[0]\<close>; the array of \<^verbatim>\<open>split\<close> is never empty.\<close>

definition year :: "CandidateSubmission \<Rightarrow> string" where
  "year submission =
     (case split_on CHR ''-'' (electionDate submission) of [] \<Rightarrow> [] | y # _ \<Rightarrow> y)"

definition content_root :: string where
  "content_root = ''src/content/english/candidates''"

definition candidatePath :: "(string \<Rightarrow> string) \<Rightarrow> CandidateSubmission \<Rightarrow> string" where
  "candidatePath lc submission =
     content_root @ ''/'' @ year submission @ ''/'' @ slug lc submission"

text \<open>The strings \<^verbatim>\<open>crypto.randomUUID\<close> returns: five groups of 8, 4, 4, 4 and 12
  lower-case hexadecimal digits, separated by dashes.\<close>

definition is_hex :: "char \<Rightarrow> bool" where
  "is_hex c =
     ((48 \<le> (of_char c :: nat) \<and> (of_char c :: nat) \<le> 57) \<or>
      (97 \<le> (of_char c :: nat) \<and> (of_char c :: nat) \<le> 102))"

definition is_uuid :: "string \<Rightarrow> bool" where
  "is_uuid u =
     (map length (split_on CHR ''-'' u) = [8, 4, 4, 4, 12] \<and>
      list_all (list_all is_hex) (split_on CHR ''-'' u))"

text \<open>An ISO calendar date \<^verbatim>\<open>YYYY-MM-DD\<close>, the documented form of \<^verbatim>\<open>electionDate\<close>.\<close>

definition is_digit :: "char \<Rightarrow> bool" where
  "is_digit c = (48 \<le> (of_char c :: nat) \<and> (of_char c :: nat) \<le> 57)"

definition is_iso_date :: "string \<Rightarrow> bool" where
  "is_iso_date d =
     (map length (split_on CHR ''-'' d) = [4, 2, 2] \<and>
      list_all (list_all is_digit) (split_on CHR ''-'' d))"

subsection \<open>Request Handler: configuration and CORS\<close>

text \<open>The environment of the function app. \<open>GITHUB_PRIVATE_KEY_SAFE\<close> is the value the
  module computes once with \<^verbatim>\<open>parseGitHubPrivateKey\<close> (\<open>None\<close> when the key is missing or
  malformed); \<open>ALLOWED_ORIGINS_ENV\<close> is \<^verbatim>\<open>process.env.ALLOWED_ORIGINS\<close>.\<close>

record config =
  IS_LOCAL_DEV :: bool
  TURNSTILE_SECRET_KEY :: string
  CONTACT_STORAGE_CONNECTION :: string
  CONTACT_CONTAINER_NAME :: string
  GITHUB_APP_ID :: string
  GITHUB_PRIVATE_KEY_SAFE :: "string option"
  GITHUB_APP_INSTALLATION_ID :: string
  GITHUB_REPO_OWNER :: string
  GITHUB_REPO_NAME :: string
  GITHUB_FORM_REPO_NAME :: string
  ALLOWED_ORIGINS_ENV :: "string option"

text \<open>\<^verbatim>\<open>(process.env.ALLOWED_ORIGINS || "https://www.democracycandidate.us")
  .split(",").map(o => o.trim()).filter(Boolean)\<close>.\<close>

definition ALLOWED_ORIGINS :: "config \<Rightarrow> string list" where
  "ALLOWED_ORIGINS cfg =
     filter (\<lambda>entry. entry \<noteq> [])
       (map trim
         (split_on CHR '',''
           (if truthy (ALLOWED_ORIGINS_ENV cfg) then or_empty (ALLOWED_ORIGINS_ENV cfg)
            else ''https://www.democracycandidate.us'')))"

record HttpRequest =
  http_method :: string
  origin_header :: "string option"
  json_body :: "CandidateSubmission option"

text \<open>\<open>origin_header\<close> is \<^verbatim>\<open>request.headers.get("origin")\<close>, \<open>None\<close> for \<^verbatim>\<open>null\<close>;
  \<open>json_body\<close> is what \<^verbatim>\<open>request.json()\<close> gives, \<open>None\<close> when it rejects.\<close>

record cors_headers =
  Access_Control_Allow_Origin :: "string option"
  Access_Control_Allow_Methods :: string
  Access_Control_Allow_Headers :: string
  Access_Control_Max_Age :: string

text \<open>\<^verbatim>\<open>ALLOWED_ORIGINS[0]\<close> is \<^verbatim>\<open>undefined\<close> on an empty list: the header value is an
  \<open>option\<close>.\<close>

definition getCorsHeaders :: "config \<Rightarrow> HttpRequest \<Rightarrow> cors_headers" where
  "getCorsHeaders cfg request =
     (let origin = or_empty (origin_header request);
          allowedOrigin =
            (if origin \<in> set (ALLOWED_ORIGINS cfg) then Some origin
             else (case ALLOWED_ORIGINS cfg of [] \<Rightarrow> None | first # _ \<Rightarrow> Some first))
      in \<lparr> Access_Control_Allow_Origin = allowedOrigin,
           Access_Control_Allow_Methods = ''POST, OPTIONS'',
           Access_Control_Allow_Headers = ''Content-Type'',
           Access_Control_Max_Age = ''86400'' \<rparr>)"

record HttpResponseInit =
  status :: nat
  headers :: cors_headers
  jsonBody :: "SubmissionResponse option"

subsection \<open>Submission Validator\<close>

text \<open>The five checks of \<^verbatim>\<open>submitCandidate\<close>, each pushing onto \<^verbatim>\<open>errors\<close>.\<close>

definition push_if :: "bool \<Rightarrow> string \<Rightarrow> string list \<Rightarrow> string list" where
  "push_if missing msg errs = (if missing then errs @ [msg] else errs)"

definition validation_errors :: "CandidateSubmission \<Rightarrow> string list" where
  "validation_errors submission =
     (let errs0 = [];
          errs1 = push_if (candidate submission = []) ''Candidate name is required'' errs0;
          errs2 = push_if (title submission = []) ''Position title is required'' errs1;
          errs3 = push_if (contactEmail submission = []) ''Contact email is required'' errs2;
          errs4 = push_if (turnstileToken submission = []) ''Turnstile token is required'' errs3;
          errs5 = push_if (content submission = []) ''Content is required'' errs4
      in errs5)"

text \<open>The validator as the specification describes it: the required fields in their order,
  each with its message.\<close>

definition required_fields :: "CandidateSubmission \<Rightarrow> (string \<times> string) list" where
  "required_fields s =
     [(candidate s, ''Candidate name is required''),
      (title s, ''Position title is required''),
      (contactEmail s, ''Contact email is required''),
      (turnstileToken s, ''Turnstile token is required''),
      (content s, ''Content is required'')]"

subsection \<open>Effects: the calls a request makes\<close>

text \<open>
  The handler talks to the logger, the human-verification service, the random source,
  the clock, the hosting API and the object store. Each such call is an event of a
  trace, with its outcome; what a call returns is given by the \<open>world\<close>, as a function
  of the events so far and the call. A call of the hosting API or the store may throw
  (its promise rejects).
\<close>

datatype encoding = Base64

record file_entry =
  file_path :: string
  file_content :: string
  file_encoding :: "encoding option"

record tree_item =
  item_path :: string
  item_mode :: string
  item_type :: string
  item_sha :: "string option"
  item_content :: "string option"

datatype github_op =
    ReposGet string string
  | GitGetRef string string string
  | GitCreateRef string string string string
  | GitGetTree string string string
  | GitCreateBlob string string string encoding
  | GitCreateTree string string string "tree_item list"
  | GitCreateCommit string string string string "string list"
  | GitUpdateRef string string string string
  | PullsCreate string string string string string string string bool

datatype call =
    ContextLog string
  | ContextError string
  | TurnstileSiteverify string string
  | RandomUUID
  | DateNow
  | AppAuth string string string
  | GitHub string github_op
  | ContainerCreateIfNotExists string string
  | BlobUpload string string string ContactRecord string

datatype outcome = Returned | Threw

type_synonym event = "call \<times> outcome"

text \<open>
  The arguments are those of the source: owner, repository and then the call's own
  parameters, in the order of the object literal; \<open>GitHub\<close> carries the installation token
  of the Octokit instance; \<open>BlobUpload\<close> carries the connection string, the container, the
  blob name, the record that is serialised with \<^verbatim>\<open>JSON.stringify\<close>, and the content type.
\<close>

record world =
  reply_text :: "event list \<Rightarrow> call \<Rightarrow> string option"
  reply_unit :: "event list \<Rightarrow> call \<Rightarrow> bool"
  reply_flag :: "event list \<Rightarrow> call \<Rightarrow> bool option"
  reply_pull :: "event list \<Rightarrow> call \<Rightarrow> (nat \<times> string) option"
  fresh_uuid :: "event list \<Rightarrow> string"
  clock :: "event list \<Rightarrow> string"
  base64_to_utf8 :: "string \<Rightarrow> string"
  lower_case :: "string \<Rightarrow> string"

text \<open>
  \<open>reply_text\<close> answers the calls whose result is one string (a default branch, a SHA, a
  token), \<open>reply_unit\<close> those whose result is not used (\<open>False\<close>: the call throws),
  \<open>reply_flag\<close> the verification call (\<^verbatim>\<open>result.success\<close>) and \<open>reply_pull\<close> the
  pull-request call (\<^verbatim>\<open>pr.number\<close>, \<^verbatim>\<open>pr.html_url\<close>); \<open>None\<close> is a call that throws.
  \<open>base64_to_utf8\<close> is \<^verbatim>\<open>Buffer.from(s, 'base64').toString('utf-8')\<close>, and \<open>lower_case\<close> is
  the case mapping of \<^verbatim>\<open>toLowerCase\<close>.
\<close>

datatype error = InvalidRequestBody | KeyNotConfigured | CallFailed call

type_synonym 'a io = "event list \<Rightarrow> (error + 'a) \<times> event list"

definition io_return :: "'a \<Rightarrow> 'a io" where
  "io_return x = (\<lambda>t. (Inr x, t))"

definition io_throw :: "error \<Rightarrow> 'a io" where
  "io_throw e = (\<lambda>t. (Inl e, t))"

definition io_bind :: "'a io \<Rightarrow> ('a \<Rightarrow> 'b io) \<Rightarrow> 'b io" where
  "io_bind m f =
     (\<lambda>t. case m t of
             (Inl e, t') \<Rightarrow> (Inl e, t')
           | (Inr x, t') \<Rightarrow> f x t')"

definition context_log :: "string \<Rightarrow> unit io" where
  "context_log msg = (\<lambda>t. (Inr (), t @ [(ContextLog msg, Returned)]))"

definition context_error :: "string \<Rightarrow> unit io" where
  "context_error msg = (\<lambda>t. (Inr (), t @ [(ContextError msg, Returned)]))"

definition call_text :: "world \<Rightarrow> call \<Rightarrow> string io" where
  "call_text w c =
     (\<lambda>t. case reply_text w t c of
             None \<Rightarrow> (Inl (CallFailed c), t @ [(c, Threw)])
           | Some s \<Rightarrow> (Inr s, t @ [(c, Returned)]))"

definition call_unit :: "world \<Rightarrow> call \<Rightarrow> unit io" where
  "call_unit w c =
     (\<lambda>t. if reply_unit w t c then (Inr (), t @ [(c, Returned)])
          else (Inl (CallFailed c), t @ [(c, Threw)]))"

definition call_flag :: "world \<Rightarrow> call \<Rightarrow> bool io" where
  "call_flag w c =
     (\<lambda>t. case reply_flag w t c of
             None \<Rightarrow> (Inl (CallFailed c), t @ [(c, Threw)])
           | Some b \<Rightarrow> (Inr b, t @ [(c, Returned)]))"

definition call_pull :: "world \<Rightarrow> call \<Rightarrow> (nat \<times> string) io" where
  "call_pull w c =
     (\<lambda>t. case reply_pull w t c of
             None \<Rightarrow> (Inl (CallFailed c), t @ [(c, Threw)])
           | Some p \<Rightarrow> (Inr p, t @ [(c, Returned)]))"

definition randomUUID :: "world \<Rightarrow> string io" where
  "randomUUID w = (\<lambda>t. (Inr (fresh_uuid w t), t @ [(RandomUUID, Returned)]))"

definition date_now_iso :: "world \<Rightarrow> string io" where
  "date_now_iso w = (\<lambda>t. (Inr (clock w t), t @ [(DateNow, Returned)]))"

text \<open>
  \<^verbatim>\<open>Promise.all(files.map(async (file) => ...))\<close>: every callback runs to its first
  \<^verbatim>\<open>await\<close> when \<^verbatim>\<open>map\<close> calls it, so all the calls are made, in the order of the list,
  before any result is looked at; the whole throws when one of them has thrown.
\<close>

fun run_all :: "'a io list \<Rightarrow> event list \<Rightarrow> (error + 'a) list \<times> event list" where
  "run_all [] t = ([], t)"
| "run_all (m # ms) t =
     (case m t of (r, t') \<Rightarrow> (case run_all ms t' of (rs, t'') \<Rightarrow> (r # rs, t'')))"

fun collect :: "(error + 'a) list \<Rightarrow> error + 'a list" where
  "collect [] = Inr []"
| "collect (Inl e # rs) = Inl e"
| "collect (Inr x # rs) = (case collect rs of Inl e \<Rightarrow> Inl e | Inr xs \<Rightarrow> Inr (x # xs))"

definition promise_all :: "'a io list \<Rightarrow> 'a list io" where
  "promise_all ms = (\<lambda>t. case run_all ms t of (rs, t') \<Rightarrow> (collect rs, t'))"

subsection \<open>Human verification, the contact archive and the hosting-API client\<close>

definition verifyTurnstile :: "config \<Rightarrow> world \<Rightarrow> string \<Rightarrow> bool io" where
  "verifyTurnstile cfg w token =
     (if IS_LOCAL_DEV cfg then io_return True
      else call_flag w (TurnstileSiteverify (TURNSTILE_SECRET_KEY cfg) token))"

definition storeContactInfo :: "config \<Rightarrow> world \<Rightarrow> ContactRecord \<Rightarrow> unit io" where
  "storeContactInfo cfg w record =
     io_bind
       (call_unit w
          (ContainerCreateIfNotExists (CONTACT_STORAGE_CONNECTION cfg) (CONTACT_CONTAINER_NAME cfg)))
       (\<lambda>_. call_unit w
          (BlobUpload (CONTACT_STORAGE_CONNECTION cfg) (CONTACT_CONTAINER_NAME cfg)
             (correlationId record @ ''.json'') record ''application/json''))"

text \<open>The Octokit instance is its installation token.\<close>

definition getOctokit :: "config \<Rightarrow> world \<Rightarrow> string io" where
  "getOctokit cfg w =
     (if \<not> truthy (GITHUB_PRIVATE_KEY_SAFE cfg) then io_throw KeyNotConfigured
      else call_text w
             (AppAuth (GITHUB_APP_ID cfg) (or_empty (GITHUB_PRIVATE_KEY_SAFE cfg))
                (GITHUB_APP_INSTALLATION_ID cfg)))"

subsection \<open>Publication Orchestrator: the file set\<close>

definition strip_prefix :: "string \<Rightarrow> string \<Rightarrow> string option" where
  "strip_prefix p s = (if take (length p) s = p then Some (drop (length p) s) else None)"

text \<open>\<^verbatim>\<open>.replace(/^data:image\/\w+;base64,/, "")\<close>: the data-URI prefix is removed when
  the string starts with it.\<close>

definition strip_data_uri :: "string \<Rightarrow> string" where
  "strip_data_uri s =
     (case strip_prefix ''data:image/'' s of
        None \<Rightarrow> s
      | Some r \<Rightarrow>
          if takeWhile is_word_char r = [] then s
          else (case strip_prefix '';base64,'' (dropWhile is_word_char r) of
                  None \<Rightarrow> s
                | Some rest \<Rightarrow> rest))"

definition isSVG :: "(string \<Rightarrow> string) \<Rightarrow> string \<Rightarrow> bool" where
  "isSVG lc filename = endsWith (toLowerCase lc filename) ''.svg''"

text \<open>\<^verbatim>\<open>img.path.split('/').pop() || img.path\<close>.\<close>

definition originalFilename :: "image_asset \<Rightarrow> string" where
  "originalFilename img =
     (case rev (split_on CHR ''/'' (img_path img)) of
        [] \<Rightarrow> img_path img
      | seg # _ \<Rightarrow> if seg = [] then img_path img else seg)"

definition normalizedFilename :: "(string \<Rightarrow> string) \<Rightarrow> image_asset \<Rightarrow> string" where
  "normalizedFilename lc img = normalizeFilename lc (originalFilename img)"

text \<open>The body of \<^verbatim>\<open>submission.additionalImages.forEach\<close>, on the pair of \<^verbatim>\<open>files\<close> and
  \<^verbatim>\<open>imageMap\<close>.\<close>

definition add_image ::
  "world \<Rightarrow> CandidateSubmission \<Rightarrow> file_entry list \<times> image_map \<Rightarrow> image_asset \<Rightarrow>
     file_entry list \<times> image_map" where
  "add_image w submission acc img =
     (case acc of (files, imageMap) \<Rightarrow>
        (let imageMap1 =
               map_set (originalFilename img) (normalizedFilename (lower_case w) img) imageMap;
             imageMap2 = map_set (img_path img) (normalizedFilename (lower_case w) img) imageMap1
         in if isSVG (lower_case w) (normalizedFilename (lower_case w) img) then
              (files @
                 [\<lparr> file_path =
                      candidatePath (lower_case w) submission @ ''/'' @
                        normalizedFilename (lower_case w) img,
                    file_content = base64_to_utf8 w (img_content img),
                    file_encoding = None \<rparr>],
               imageMap2)
            else
              (files @
                 [\<lparr> file_path =
                      candidatePath (lower_case w) submission @ ''/'' @
                        normalizedFilename (lower_case w) img,
                    file_content = img_content img,
                    file_encoding = Some Base64 \<rparr>],
               imageMap2)))"

definition avatarFilename :: "(string \<Rightarrow> string) \<Rightarrow> CandidateSubmission \<Rightarrow> string option" where
  "avatarFilename lc submission =
     (if truthy (avatarImage submission)
      then Some (normalizeFilename lc (slug lc submission @ ''-avatar.jpg''))
      else None)"

definition imageFilename :: "(string \<Rightarrow> string) \<Rightarrow> CandidateSubmission \<Rightarrow> string option" where
  "imageFilename lc submission =
     (if truthy (titleImage submission)
      then Some (normalizeFilename lc (slug lc submission @ ''-title.jpg''))
      else None)"

text \<open>The lines of \<^verbatim>\<open>createCandidatePR\<close> from \<^verbatim>\<open>const files = []\<close> to the push of
  \<^verbatim>\<open>index.md\<close>, in three steps: the avatar and the title image, the inline images, and
  the front-matter document.\<close>

definition fixed_files :: "(string \<Rightarrow> string) \<Rightarrow> CandidateSubmission \<Rightarrow> file_entry list" where
  "fixed_files lc submission =
     (let files0 = [];
          files1 =
            (if truthy (avatarImage submission) then
               files0 @
                 [\<lparr> file_path =
                      candidatePath lc submission @ ''/'' @ or_empty (avatarFilename lc submission),
                    file_content = strip_data_uri (or_empty (avatarImage submission)),
                    file_encoding = Some Base64 \<rparr>]
             else files0);
          files2 =
            (if truthy (titleImage submission) then
               files1 @
                 [\<lparr> file_path =
                      candidatePath lc submission @ ''/'' @ or_empty (imageFilename lc submission),
                    file_content = strip_data_uri (or_empty (titleImage submission)),
                    file_encoding = Some Base64 \<rparr>]
             else files1)
      in files2)"

definition image_files ::
  "world \<Rightarrow> CandidateSubmission \<Rightarrow> file_entry list \<Rightarrow> file_entry list \<times> image_map" where
  "image_files w submission files =
     (case additionalImages submission of
        None \<Rightarrow> (files, [])
      | Some imgs \<Rightarrow>
          if 0 < length imgs then foldl (add_image w submission) (files, []) imgs
          else (files, []))"

definition prepare_files :: "world \<Rightarrow> CandidateSubmission \<Rightarrow> file_entry list" where
  "prepare_files w submission =
     (let acc = image_files w submission (fixed_files (lower_case w) submission);
          normalizedContent = normalizeMarkdownImagePaths (content submission) (snd acc);
          frontmatter =
            generateFrontmatter (submission\<lparr>content := normalizedContent\<rparr>)
              (avatarFilename (lower_case w) submission) (imageFilename (lower_case w) submission)
      in fst acc @
           [\<lparr> file_path = candidatePath (lower_case w) submission @ ''/index.md'',
              file_content = frontmatter,
              file_encoding = None \<rparr>])"

text \<open>The file entry of one inline image, as the specification describes it: text that is
  decoded from base64 for a vector graphic, the base64 content as it is for any other
  image.\<close>

definition image_entry :: "world \<Rightarrow> CandidateSubmission \<Rightarrow> image_asset \<Rightarrow> file_entry" where
  "image_entry w submission img =
     \<lparr> file_path =
         candidatePath (lower_case w) submission @ ''/'' @ normalizedFilename (lower_case w) img,
       file_content =
         (if isSVG (lower_case w) (normalizedFilename (lower_case w) img)
          then base64_to_utf8 w (img_content img)
          else img_content img),
       file_encoding =
         (if isSVG (lower_case w) (normalizedFilename (lower_case w) img) then None
          else Some Base64) \<rparr>"

definition images_of :: "CandidateSubmission \<Rightarrow> image_asset list" where
  "images_of submission = (case additionalImages submission of None \<Rightarrow> [] | Some imgs \<Rightarrow> imgs)"

definition create_blob_call :: "config \<Rightarrow> string \<Rightarrow> string \<Rightarrow> call" where
  "create_blob_call cfg octokit data =
     GitHub octokit
       (GitCreateBlob (GITHUB_REPO_OWNER cfg) (GITHUB_FORM_REPO_NAME cfg) data Base64)"

text \<open>The callback of \<^verbatim>\<open>files.map\<close>: a blob is created for a file with the encoding
  \<^verbatim>\<open>base64\<close> and the tree item names its SHA; any other file goes into the tree item as
  text.\<close>

definition tree_item_for :: "config \<Rightarrow> world \<Rightarrow> string \<Rightarrow> file_entry \<Rightarrow> tree_item io" where
  "tree_item_for cfg w octokit file =
     (if file_encoding file = Some Base64 then
        io_bind
          (call_text w
             (GitHub octokit
                (GitCreateBlob (GITHUB_REPO_OWNER cfg) (GITHUB_FORM_REPO_NAME cfg)
                   (file_content file) Base64)))
          (\<lambda>blob_sha.
             io_return
               \<lparr> item_path = file_path file, item_mode = ''100644'', item_type = ''blob'',
                 item_sha = Some blob_sha, item_content = None \<rparr>)
      else
        io_return
          \<lparr> item_path = file_path file, item_mode = ''100644'', item_type = ''blob'',
            item_sha = None, item_content = Some (file_content file) \<rparr>)"

subsection \<open>Publication Orchestrator: \<^verbatim>\<open>createCandidatePR\<close>\<close>

fun show_nat :: "nat \<Rightarrow> string" where
  "show_nat n =
     (if n < 10 then [char_of (48 + n)]
      else show_nat (n div 10) @ [char_of (48 + n mod 10)])"

declare show_nat.simps [simp del]

definition commit_message :: "CandidateSubmission \<Rightarrow> string" where
  "commit_message submission = ''Add Candidate '' @ candidate submission"

definition pr_body :: "CandidateSubmission \<Rightarrow> string \<Rightarrow> string" where
  "pr_body submission cid =
     ''## New Candidate Submission'' @ newline @ newline @
     ''**Candidate:** '' @ candidate submission @ newline @
     ''**Position:** '' @ title submission @ newline @
     ''**Party:** '' @ party submission @ newline @ newline @
     ''---'' @ newline @ newline @
     ''*This PR was automatically created from a form submission.*'' @ newline @
     ''*Correlation ID: '' @ [CHR 0x60] @ cid @ [CHR 0x60] @ ''*'' @ newline @ newline @
     ''Please verify the candidate information and merge when ready.''"

definition createCandidatePR ::
  "config \<Rightarrow> world \<Rightarrow> string \<Rightarrow> CandidateSubmission \<Rightarrow> string \<Rightarrow> string io" where
  "createCandidatePR cfg w octokit submission cid =
     io_bind (call_text w (GitHub octokit
        (ReposGet (GITHUB_REPO_OWNER cfg) (GITHUB_FORM_REPO_NAME cfg))))
     (\<lambda>formRepo_default_branch.
     io_bind (call_text w (GitHub octokit
        (GitGetRef (GITHUB_REPO_OWNER cfg) (GITHUB_FORM_REPO_NAME cfg)
           (''heads/'' @ formRepo_default_branch))))
     (\<lambda>ref_sha.
     io_bind (call_text w (GitHub octokit
        (ReposGet (GITHUB_REPO_OWNER cfg) (GITHUB_REPO_NAME cfg))))
     (\<lambda>mainRepo_default_branch.
     io_bind (call_unit w (GitHub octokit
        (GitCreateRef (GITHUB_REPO_OWNER cfg) (GITHUB_FORM_REPO_NAME cfg)
           (''refs/heads/'' @ branchName (lower_case w) submission cid) ref_sha)))
     (\<lambda>_.
     io_bind (context_log
        (''Created branch '' @ branchName (lower_case w) submission cid @ '' in '' @ GITHUB_FORM_REPO_NAME cfg))
     (\<lambda>_.
     io_bind (call_text w (GitHub octokit
        (GitGetTree (GITHUB_REPO_OWNER cfg) (GITHUB_FORM_REPO_NAME cfg) ref_sha)))
     (\<lambda>baseTree_sha.
     io_bind (promise_all (map (tree_item_for cfg w octokit) (prepare_files w submission)))
     (\<lambda>treeItems.
     io_bind (call_text w (GitHub octokit
        (GitCreateTree (GITHUB_REPO_OWNER cfg) (GITHUB_FORM_REPO_NAME cfg) baseTree_sha treeItems)))
     (\<lambda>newTree_sha.
     io_bind (call_text w (GitHub octokit
        (GitCreateCommit (GITHUB_REPO_OWNER cfg) (GITHUB_FORM_REPO_NAME cfg)
           (commit_message submission) newTree_sha [ref_sha])))
     (\<lambda>commit_sha.
     io_bind (call_unit w (GitHub octokit
        (GitUpdateRef (GITHUB_REPO_OWNER cfg) (GITHUB_FORM_REPO_NAME cfg)
           (''heads/'' @ branchName (lower_case w) submission cid) commit_sha)))
     (\<lambda>_.
     io_bind (context_log (''Committed files to '' @ branchName (lower_case w) submission cid))
     (\<lambda>_.
     io_bind (call_pull w (GitHub octokit
        (PullsCreate (GITHUB_REPO_OWNER cfg) (GITHUB_REPO_NAME cfg)
           (commit_message submission) (pr_body submission cid)
           (branchName (lower_case w) submission cid)
           (GITHUB_REPO_OWNER cfg @ ''/'' @ GITHUB_FORM_REPO_NAME cfg)
           mainRepo_default_branch True)))
     (\<lambda>pr.
     io_bind (context_log (''Created PR #'' @ show_nat (fst pr) @ '': '' @ snd pr))
     (\<lambda>_.
     io_return (snd pr))))))))))))))"

subsection \<open>Request Handler: \<^verbatim>\<open>submitCandidate\<close>\<close>

definition mock_pr_url :: string where
  "mock_pr_url = ''http://localhost:mock-pr-url''"

definition validation_response :: "cors_headers \<Rightarrow> string list \<Rightarrow> HttpResponseInit" where
  "validation_response corsHeaders errs =
     \<lparr> status = 400, headers = corsHeaders,
       jsonBody = Some \<lparr> success = False, message = ''Validation failed'', errors = Some errs,
                         resp_correlationId = None, resp_pullRequestUrl = None \<rparr> \<rparr>"

definition token_response :: "cors_headers \<Rightarrow> HttpResponseInit" where
  "token_response corsHeaders =
     \<lparr> status = 401, headers = corsHeaders,
       jsonBody = Some \<lparr> success = False, message = ''Invalid security token'', errors = None,
                         resp_correlationId = None, resp_pullRequestUrl = None \<rparr> \<rparr>"

definition success_response :: "cors_headers \<Rightarrow> string \<Rightarrow> string \<Rightarrow> HttpResponseInit" where
  "success_response corsHeaders cid prUrl =
     \<lparr> status = 200, headers = corsHeaders,
       jsonBody = Some \<lparr> success = True,
                         message = ''Candidate submission received! A pull request has been created for review.'',
                         errors = None,
                         resp_correlationId = Some cid, resp_pullRequestUrl = Some prUrl \<rparr> \<rparr>"

definition error_response :: "cors_headers \<Rightarrow> HttpResponseInit" where
  "error_response corsHeaders =
     \<lparr> status = 500, headers = corsHeaders,
       jsonBody = Some \<lparr> success = False,
                         message = ''An error occurred processing your submission. Please try again.'',
                         errors = None,
                         resp_correlationId = Some [], resp_pullRequestUrl = None \<rparr> \<rparr>"

definition contact_record ::
  "CandidateSubmission \<Rightarrow> string \<Rightarrow> string \<Rightarrow> string \<Rightarrow> ContactRecord" where
  "contact_record submission cid now prUrl =
     \<lparr> correlationId = cid,
       submittedAt = now,
       rec_contactEmail = contactEmail submission,
       rec_contactPhone = contactPhone submission,
       rec_contactNotes = contactNotes submission,
       rec_submitterName = submitterName submission,
       rec_submitterRelationship = submitterRelationship submission,
       candidateName = candidate submission,
       pullRequestUrl = prUrl \<rparr>"

text \<open>The publication step: skipped in local development without a key, else the pull
  request is created.\<close>

definition publish :: "config \<Rightarrow> world \<Rightarrow> CandidateSubmission \<Rightarrow> string \<Rightarrow> string io" where
  "publish cfg w submission cid =
     (if IS_LOCAL_DEV cfg \<and> \<not> truthy (GITHUB_PRIVATE_KEY_SAFE cfg) then
        io_bind
          (context_log ''[LOCAL_DEV] Skipping GitHub PR creation (credentials not configured)'')
          (\<lambda>_. io_return mock_pr_url)
      else
        io_bind (getOctokit cfg w)
          (\<lambda>octokit. createCandidatePR cfg w octokit submission cid))"

text \<open>The lines of the \<^verbatim>\<open>try\<close> block that follow a successful verification, from
  \<^verbatim>\<open>const correlationId = randomUUID()\<close> to the response with the status 200.\<close>

definition accept_submission ::
  "config \<Rightarrow> world \<Rightarrow> CandidateSubmission \<Rightarrow> cors_headers \<Rightarrow> HttpResponseInit io" where
  "accept_submission cfg w submission corsHeaders =
     io_bind (randomUUID w)
     (\<lambda>cid.
     io_bind (publish cfg w submission cid)
     (\<lambda>prUrl.
     io_bind (date_now_iso w)
     (\<lambda>now.
     io_bind (storeContactInfo cfg w (contact_record submission cid now prUrl))
     (\<lambda>_.
     io_bind (context_log (''Stored contact info for '' @ cid))
     (\<lambda>_.
     io_return (success_response corsHeaders cid prUrl))))))"

text \<open>The \<^verbatim>\<open>try\<close> block of \<^verbatim>\<open>submitCandidate\<close>.\<close>

definition process_submission ::
  "config \<Rightarrow> world \<Rightarrow> HttpRequest \<Rightarrow> cors_headers \<Rightarrow> HttpResponseInit io" where
  "process_submission cfg w request corsHeaders =
     (case json_body request of
        None \<Rightarrow> io_throw InvalidRequestBody
      | Some submission \<Rightarrow>
          if 0 < length (validation_errors submission) then
            io_return (validation_response corsHeaders (validation_errors submission))
          else
            io_bind (verifyTurnstile cfg w (turnstileToken submission))
            (\<lambda>isValidToken.
               if \<not> isValidToken then io_return (token_response corsHeaders)
               else accept_submission cfg w submission corsHeaders))"

text \<open>The handler: the first log line, the CORS headers, the preflight answer, and the
  \<^verbatim>\<open>try\<close> block with its \<^verbatim>\<open>catch\<close>.\<close>

definition submitCandidate ::
  "config \<Rightarrow> world \<Rightarrow> HttpRequest \<Rightarrow> event list \<Rightarrow> HttpResponseInit \<times> event list" where
  "submitCandidate cfg w request t0 =
     (let t1 = t0 @ [(ContextLog ''Processing candidate submission request'', Returned)];
          corsHeaders = getCorsHeaders cfg request
      in if http_method request = ''OPTIONS'' then
           (\<lparr> status = 204, headers = corsHeaders, jsonBody = None \<rparr>, t1)
         else
           (case process_submission cfg w request corsHeaders t1 of
              (Inr response, t2) \<Rightarrow> (response, t2)
            | (Inl e, t2) \<Rightarrow>
                (error_response corsHeaders,
                 t2 @ [(ContextError ''Error processing submission:'', Returned)])))"

subsection \<open>Concrete inputs\<close>

text \<open>A configuration, three worlds, a submission and a request on which the theorems
  below are evaluated.\<close>

definition example_config :: config where
  "example_config =
     \<lparr> IS_LOCAL_DEV = False,
       TURNSTILE_SECRET_KEY = ''secret'',
       CONTACT_STORAGE_CONNECTION = ''UseDevelopmentStorage=true'',
       CONTACT_CONTAINER_NAME = ''contacts'',
       GITHUB_APP_ID = ''1001'',
       GITHUB_PRIVATE_KEY_SAFE = Some ''PEM'',
       GITHUB_APP_INSTALLATION_ID = ''2002'',
       GITHUB_REPO_OWNER = ''democracycandidate'',
       GITHUB_REPO_NAME = ''democracycandidate'',
       GITHUB_FORM_REPO_NAME = ''democracycandidate-formsubmissions'',
       ALLOWED_ORIGINS_ENV = None \<rparr>"

definition local_config :: config where
  "local_config = example_config \<lparr> IS_LOCAL_DEV := True, GITHUB_PRIVATE_KEY_SAFE := None \<rparr>"

definition wildcard_config :: config where
  "wildcard_config = example_config \<lparr> ALLOWED_ORIGINS_ENV := Some ''*'' \<rparr>"

definition example_uuid :: string where
  "example_uuid = ''123e4567-e89b-42d3-a456-426614174000''"

definition other_uuid :: string where
  "other_uuid = ''123e4567-ffff-4fff-bfff-ffffffffffff''"

text \<open>A case mapping for the examples: \<^verbatim>\<open>A-Z\<close> become \<^verbatim>\<open>a-z\<close>, and the Kelvin sign
  U+212A, the bytes \<^verbatim>\<open>E2 84 AA\<close>, becomes \<^verbatim>\<open>k\<close>.\<close>

fun example_lower :: "string \<Rightarrow> string" where
  "example_lower (a # b # c # s) =
     (if a = CHR 0xE2 \<and> b = CHR 0x84 \<and> c = CHR 0xAA then CHR ''k'' # example_lower s
      else lower_char a # example_lower (b # c # s))"
| "example_lower (a # s) = lower_char a # example_lower s"
| "example_lower [] = []"

text \<open>In \<open>example_world\<close> every call succeeds: a text call returns \<open>r\<close> and the number of
  events so far, the pull request is number 7.\<close>

definition example_world :: world where
  "example_world =
     \<lparr> reply_text = (\<lambda>t c. Some (''r'' @ show_nat (length t))),
       reply_unit = (\<lambda>t c. True),
       reply_flag = (\<lambda>t c. Some True),
       reply_pull = (\<lambda>t c. Some (7, ''https://github.com/democracycandidate/democracycandidate/pull/7'')),
       fresh_uuid = (\<lambda>t. example_uuid),
       clock = (\<lambda>t. ''2026-11-02T12:00:00.000Z''),
       base64_to_utf8 = (\<lambda>s. ''<svg/>''),
       lower_case = example_lower \<rparr>"

text \<open>In \<open>rejecting_world\<close> the verification service rejects every token; in
  \<open>failing_world\<close> creating the branch fails.\<close>

definition rejecting_world :: world where
  "rejecting_world = example_world \<lparr> reply_flag := (\<lambda>t c. Some False) \<rparr>"

definition failing_world :: world where
  "failing_world =
     example_world
       \<lparr> reply_unit :=
           (\<lambda>t c. case c of GitHub tok (GitCreateRef ow repo r sha) \<Rightarrow> False | _ \<Rightarrow> True) \<rparr>"

text \<open>In \<open>storing_world\<close> the upload of the contact record fails.\<close>

definition storing_world :: world where
  "storing_world =
     example_world
       \<lparr> reply_unit :=
           (\<lambda>t c. case c of BlobUpload conn cont name r ty \<Rightarrow> False | _ \<Rightarrow> True) \<rparr>"

definition logo_image :: image_asset where
  "logo_image = \<lparr> img_path = ''images/Logo.SVG'', img_content = ''PHN2Zy8+'' \<rparr>"

definition photo_image :: image_asset where
  "photo_image = \<lparr> img_path = ''images/photo.png'', img_content = ''iVBORw0KGgo='' \<rparr>"

definition example_submission :: CandidateSubmission where
  "example_submission =
     \<lparr> title = ''Mayor'',
       candidate = ''Jane Q. Doe'',
       party = ''Independent'',
       electionDate = ''2026-11-03'',
       categories = [''Mayor'', ''Illinois''],
       tags = [],
       about = ''Neighbour and volunteer'',
       website = None,
       content = ''# Policy'',
       titleImage = None,
       avatarImage = None,
       additionalImages = Some [logo_image, photo_image],
       contactEmail = ''jane@example.org'',
       contactPhone = None,
       contactNotes = None,
       submitterName = None,
       submitterRelationship = None,
       turnstileToken = ''token'' \<rparr>"

definition example_request :: HttpRequest where
  "example_request =
     \<lparr> http_method = ''POST'',
       origin_header = Some ''https://www.democracycandidate.us'',
       json_body = Some example_submission \<rparr>"

definition missing_contact_request :: HttpRequest where
  "missing_contact_request =
     example_request
       \<lparr> json_body := Some (example_submission \<lparr> contactEmail := [], turnstileToken := [] \<rparr>) \<rparr>"

definition unparsable_request :: HttpRequest where
  "unparsable_request = example_request \<lparr> json_body := None \<rparr>"

definition foreign_request :: HttpRequest where
  "foreign_request = example_request \<lparr> origin_header := Some ''https://evil.example'' \<rparr>"

definition keyless_config :: config where
  "keyless_config = example_config \<lparr> GITHUB_PRIVATE_KEY_SAFE := None \<rparr>"
subsection \<open>Predicates on traces\<close>

text \<open>The vocabulary in which the effects of a request are stated: which calls write
  outside the request, which events have thrown, and what a trace looks like after a
  failure.\<close>

definition is_side_effect :: "call \<Rightarrow> bool" where
  "is_side_effect c =
     (case c of
        RandomUUID \<Rightarrow> True
      | AppAuth a k i \<Rightarrow> True
      | GitHub tok op \<Rightarrow> True
      | ContainerCreateIfNotExists conn cont \<Rightarrow> True
      | BlobUpload conn cont name r ty \<Rightarrow> True
      | _ \<Rightarrow> False)"

definition is_create_blob :: "call \<Rightarrow> bool" where
  "is_create_blob c =
     (case c of GitHub tok (GitCreateBlob ow repo data enc) \<Rightarrow> True | _ \<Rightarrow> False)"

definition returned :: "event list \<Rightarrow> bool" where
  "returned evs = list_all (\<lambda>e. snd e = Returned) evs"

fun halted :: "event list \<Rightarrow> bool" where
  "halted [] = True"
| "halted ((c, Returned) # evs) = halted evs"
| "halted ((c, Threw) # evs) =
     (evs = [] \<or> (is_create_blob c \<and> list_all (\<lambda>e. is_create_blob (fst e)) evs))"

definition io_ok :: "(call \<Rightarrow> bool) \<Rightarrow> 'a io \<Rightarrow> bool" where
  "io_ok P m =
     (\<forall>t. \<exists>new. snd (m t) = t @ new \<and> list_all (\<lambda>e. P (fst e)) new \<and>
        (case fst (m t) of Inr x \<Rightarrow> returned new | Inl e \<Rightarrow> halted new))"

definition hosting_or_log :: "call \<Rightarrow> bool" where
  "hosting_or_log c = (case c of ContextLog m \<Rightarrow> True | GitHub tok op \<Rightarrow> True | _ \<Rightarrow> False)"

definition publication_call :: "call \<Rightarrow> bool" where
  "publication_call c =
     (case c of ContextLog m \<Rightarrow> True | GitHub tok op \<Rightarrow> True | AppAuth a k i \<Rightarrow> True | _ \<Rightarrow> False)"

fun uploads :: "event list \<Rightarrow> (string \<times> ContactRecord) list" where
  "uploads [] = []"
| "uploads ((BlobUpload conn cont name r ty, Returned) # evs) = (name, r) # uploads evs"
| "uploads (e # evs) = uploads evs"

definition is_store_call :: "call \<Rightarrow> bool" where
  "is_store_call c =
     (case c of ContainerCreateIfNotExists conn cont \<Rightarrow> True
      | BlobUpload conn cont name r ty \<Rightarrow> True
      | _ \<Rightarrow> False)"

definition store_events :: "config \<Rightarrow> ContactRecord \<Rightarrow> event list" where
  "store_events cfg r =
     [(ContainerCreateIfNotExists (CONTACT_STORAGE_CONNECTION cfg) (CONTACT_CONTAINER_NAME cfg), Returned),
      (BlobUpload (CONTACT_STORAGE_CONNECTION cfg) (CONTACT_CONTAINER_NAME cfg)
         (correlationId r @ ''.json'') r ''application/json'', Returned),
      (ContextLog (''Stored contact info for '' @ correlationId r), Returned)]"

definition first_log :: event where
  "first_log = (ContextLog ''Processing candidate submission request'', Returned)"

definition pull_request_call ::
  "config \<Rightarrow> world \<Rightarrow> string \<Rightarrow> CandidateSubmission \<Rightarrow> string \<Rightarrow> string \<Rightarrow> call" where
  "pull_request_call cfg w tok s cid base =
     GitHub tok
       (PullsCreate (GITHUB_REPO_OWNER cfg) (GITHUB_REPO_NAME cfg)
          (commit_message s) (pr_body s cid) (branchName (lower_case w) s cid)
          (GITHUB_REPO_OWNER cfg @ ''/'' @ GITHUB_FORM_REPO_NAME cfg) base True)"

definition is_hosting_call :: "call \<Rightarrow> bool" where
  "is_hosting_call c = (case c of GitHub tok op \<Rightarrow> True | AppAuth a k i \<Rightarrow> True | _ \<Rightarrow> False)"

definition error_log :: event where
  "error_log = (ContextError ''Error processing submission:'', Returned)"

text \<open>The two calls of \<^verbatim>\<open>storeContactInfo\<close>: the container is created when it does not
  exist, and the record is uploaded under the name of its correlation ID.\<close>

definition create_container_call :: "config \<Rightarrow> call" where
  "create_container_call cfg =
     ContainerCreateIfNotExists (CONTACT_STORAGE_CONNECTION cfg) (CONTACT_CONTAINER_NAME cfg)"

definition upload_call :: "config \<Rightarrow> ContactRecord \<Rightarrow> call" where
  "upload_call cfg r =
     BlobUpload (CONTACT_STORAGE_CONNECTION cfg) (CONTACT_CONTAINER_NAME cfg)
       (correlationId r @ ''.json'') r ''application/json''"
section \<open>Properties\<close>

subsection \<open>The case mapping\<close>

lemma lower_alnum_plain: "is_lower_alnum c \<Longrightarrow> plain_char c"
  by (auto simp: is_lower_alnum_def plain_char_def is_upper_def)

lemma dash_plain: "plain_char CHR ''-''"
  by (simp add: plain_char_def is_upper_def)

lemma dash_not_alnum: "\<not> is_lower_alnum CHR ''-''"
  by (simp add: is_lower_alnum_def)

lemma dot_not_alnum: "\<not> is_lower_alnum CHR ''.''"
  by (simp add: is_lower_alnum_def)

lemma base_chars_plain: "base_chars t \<Longrightarrow> list_all plain_char t"
  by (auto simp: base_chars_def list_all_iff lower_alnum_plain dash_plain)

lemma case_mapping_Nil: "case_mapping lc \<Longrightarrow> lc [] = []"
  by (simp add: case_mapping_def)

lemma case_mapping_behind:
  "case_mapping lc \<Longrightarrow> list_all plain_char x \<Longrightarrow> lc (x @ lc y) = x @ lc y"
  by (simp add: case_mapping_def)

lemma case_mapping_idem: "case_mapping lc \<Longrightarrow> lc (lc y) = lc y"
  using case_mapping_behind [of lc "[]" y] by simp

lemma case_mapping_plain: "case_mapping lc \<Longrightarrow> list_all plain_char x \<Longrightarrow> lc x = x"
  using case_mapping_behind [of lc x "[]"] by (simp add: case_mapping_Nil)

lemma case_mapping_dot: "case_mapping lc \<Longrightarrow> lc (CHR ''.'' # x) = CHR ''.'' # lc x"
  by (simp add: case_mapping_def)

lemma case_mapping_no_dot: "case_mapping lc \<Longrightarrow> CHR ''.'' \<notin> set x \<Longrightarrow> CHR ''.'' \<notin> set (lc x)"
  by (simp add: case_mapping_def)

subsection \<open>The normalised base name\<close>

lemma dash_runs_chars: "base_chars (dash_runs s)"
  by (induction s rule: dash_runs.induct) (auto simp: base_chars_def)

lemma dash_runs_hd:
  "dash_runs s \<noteq> [] \<Longrightarrow> is_lower_alnum (hd s) \<Longrightarrow> hd (dash_runs s) = hd s"
  by (cases s) auto

lemma dropWhile_not_alnum_hd:
  "dropWhile (\<lambda>d. \<not> is_lower_alnum d) cs = x # xs \<Longrightarrow> is_lower_alnum x"
  using hd_dropWhile [of "\<lambda>d. \<not> is_lower_alnum d" cs] by auto

lemma dash_runs_single: "no_double_dash (dash_runs s)"
proof (induction s rule: dash_runs.induct)
  case 1
  show ?case by (simp add: no_double_dash_def)
next
  case (2 c cs)
  show ?case
  proof (cases "is_lower_alnum c")
    case True
    with 2 show ?thesis
      by (auto simp: no_double_dash_def successively_Cons dash_not_alnum)
  next
    case False
    let ?r = "dropWhile (\<lambda>d. \<not> is_lower_alnum d) cs"
    have ih: "no_double_dash (dash_runs ?r)" using 2 False by simp
    have "dash_runs ?r = [] \<or> hd (dash_runs ?r) \<noteq> CHR ''-''"
    proof (cases ?r)
      case Nil
      show ?thesis unfolding Nil by simp
    next
      case (Cons x xs)
      then have "is_lower_alnum x" by (rule dropWhile_not_alnum_hd)
      with Cons show ?thesis by (auto simp: dash_not_alnum)
    qed
    with ih False show ?thesis
      by (auto simp: no_double_dash_def successively_Cons)
  qed
qed

lemma dash_runs_fix: "base_chars t \<Longrightarrow> no_double_dash t \<Longrightarrow> dash_runs t = t"
proof (induction t rule: dash_runs.induct)
  case 1
  show ?case by simp
next
  case (2 c cs)
  have bc: "base_chars cs" and nd: "no_double_dash cs"
    using 2(3,4) by (auto simp: base_chars_def no_double_dash_def successively_Cons)
  show ?case
  proof (cases "is_lower_alnum c")
    case True
    with 2 bc nd show ?thesis by simp
  next
    case False
    then have c: "c = CHR ''-''" using 2(3) by (simp add: base_chars_def)
    have "dropWhile (\<lambda>d. \<not> is_lower_alnum d) cs = cs"
    proof (cases cs)
      case Nil
      then show ?thesis by simp
    next
      case (Cons d ds)
      then have "d \<noteq> CHR ''-''"
        using 2(4) c by (simp add: no_double_dash_def)
      moreover have "is_lower_alnum d \<or> d = CHR ''-''"
        using bc Cons by (simp add: base_chars_def)
      ultimately show ?thesis using Cons by simp
    qed
    with 2 False bc nd c show ?thesis by simp
  qed
qed

lemma dash_runs_filter: "filter is_lower_alnum (dash_runs s) = filter is_lower_alnum s"
proof (induction s rule: dash_runs.induct)
  case 1
  show ?case by simp
next
  case (2 c cs)
  have "filter is_lower_alnum (dropWhile (\<lambda>d. \<not> is_lower_alnum d) cs) = filter is_lower_alnum cs"
    by (induction cs) auto
  with 2 show ?case by (auto simp: dash_not_alnum)
qed

lemma trim_dashes_sub: "set (trim_dashes s) \<subseteq> set s"
  unfolding trim_dashes_def by (auto dest!: set_dropWhileD)

lemma trim_dashes_chars: "base_chars s \<Longrightarrow> base_chars (trim_dashes s)"
  using trim_dashes_sub [of s] by (auto simp: base_chars_def list_all_iff)

lemma successively_dropWhile: "successively P xs \<Longrightarrow> successively P (dropWhile Q xs)"
  using successively_append_iff [of P "takeWhile Q xs" "dropWhile Q xs"] by simp

lemma no_double_dash_rev: "no_double_dash (rev s) = no_double_dash s"
  unfolding no_double_dash_def successively_rev
  by (rule successively_cong) auto

lemma no_double_dash_dropWhile: "no_double_dash s \<Longrightarrow> no_double_dash (dropWhile Q s)"
  unfolding no_double_dash_def by (rule successively_dropWhile)

lemma trim_dashes_single: "no_double_dash s \<Longrightarrow> no_double_dash (trim_dashes s)"
  unfolding trim_dashes_def
  by (simp add: no_double_dash_rev no_double_dash_dropWhile)

lemma trim_dashes_ends:
  "trim_dashes s = [] \<or> (hd (trim_dashes s) \<noteq> CHR ''-'' \<and> last (trim_dashes s) \<noteq> CHR ''-'')"
proof (cases "trim_dashes s = []")
  case True
  then show ?thesis by simp
next
  case False
  define y where "y = dropWhile (\<lambda>c. c = CHR ''-'') s"
  define z where "z = dropWhile (\<lambda>c. c = CHR ''-'') (rev y)"
  have t: "trim_dashes s = rev z" by (simp add: trim_dashes_def y_def z_def)
  have z: "z \<noteq> []" using False t by simp
  have "hd z \<noteq> CHR ''-''"
    using hd_dropWhile [of "\<lambda>c. c = CHR ''-''" "rev y"] z unfolding z_def by blast
  then have l: "last (rev z) \<noteq> CHR ''-''" using z by (simp add: last_rev)
  have y: "y \<noteq> []" using z unfolding z_def by auto
  have hy: "hd y \<noteq> CHR ''-''"
    using hd_dropWhile [of "\<lambda>c. c = CHR ''-''" s] y unfolding y_def by blast
  have "rev y = takeWhile (\<lambda>c. c = CHR ''-'') (rev y) @ z" unfolding z_def by simp
  then have "rev (rev y) = rev (takeWhile (\<lambda>c. c = CHR ''-'') (rev y) @ z)" by (rule arg_cong)
  then have "y = rev z @ rev (takeWhile (\<lambda>c. c = CHR ''-'') (rev y))"
    by (simp only: rev_append rev_rev_ident)
  then have "hd y = hd (rev z @ rev (takeWhile (\<lambda>c. c = CHR ''-'') (rev y)))" by (rule arg_cong)
  also have "\<dots> = hd (rev z)" using z by (simp only: hd_append2 rev_is_Nil_conv not_False_eq_True)
  finally have "hd (rev z) \<noteq> CHR ''-''" using hy by simp
  with l t show ?thesis by simp
qed

lemma trim_dashes_fix:
  assumes "t = [] \<or> (hd t \<noteq> CHR ''-'' \<and> last t \<noteq> CHR ''-'')"
  shows "trim_dashes t = t"
proof (cases "t = []")
  case True
  then show ?thesis by (simp add: trim_dashes_def)
next
  case False
  with assms have h: "hd t \<noteq> CHR ''-''" and l: "last t \<noteq> CHR ''-''" by auto
  have a: "dropWhile (\<lambda>c. c = CHR ''-'') t = t"
    using h by (simp add: dropWhile_eq_self_iff)
  have b: "dropWhile (\<lambda>c. c = CHR ''-'') (rev t) = rev t"
    using l False by (simp add: dropWhile_eq_self_iff hd_rev)
  show ?thesis by (simp add: trim_dashes_def a b)
qed

lemma trim_dashes_filter: "filter is_lower_alnum (trim_dashes s) = filter is_lower_alnum s"
proof -
  have a: "filter is_lower_alnum (dropWhile (\<lambda>c. c = CHR ''-'') xs) = filter is_lower_alnum xs" for xs
    by (induction xs) (auto simp: dash_not_alnum)
  show ?thesis
    unfolding trim_dashes_def by (simp add: a rev_filter [symmetric])
qed

lemma normalize_base_canonical: "canonical_base (normalize_base lc s)"
  unfolding canonical_base_def normalize_base_def
  by (simp add: trim_dashes_chars dash_runs_chars trim_dashes_single dash_runs_single trim_dashes_ends)

lemma canonical_base_fix: "case_mapping lc \<Longrightarrow> canonical_base t \<Longrightarrow> normalize_base lc t = t"
  unfolding canonical_base_def normalize_base_def toLowerCase_def
  by (simp add: case_mapping_plain base_chars_plain dash_runs_fix trim_dashes_fix)

lemma normalize_base_idem:
  "case_mapping lc \<Longrightarrow> normalize_base lc (normalize_base lc s) = normalize_base lc s"
  by (rule canonical_base_fix [OF _ normalize_base_canonical])

lemma base_chars_no_dot: "base_chars t \<Longrightarrow> CHR ''.'' \<notin> set t"
  by (auto simp: base_chars_def list_all_iff dot_not_alnum)

subsection \<open>The base name as runs joined by dashes\<close>

lemma alnum_runs_Cons:
  assumes "is_lower_alnum c"
  shows "alnum_runs (c # xs) =
     (if xs \<noteq> [] \<and> is_lower_alnum (hd xs)
      then (c # hd (alnum_runs xs)) # tl (alnum_runs xs)
      else [c] # alnum_runs xs)"
proof (cases xs)
  case Nil
  with assms show ?thesis by simp
next
  case (Cons x xs')
  with assms show ?thesis by (cases "is_lower_alnum x") simp_all
qed

lemma alnum_runs_skip: "\<not> is_lower_alnum c \<Longrightarrow> alnum_runs (c # xs) = alnum_runs xs"
  by simp

lemma alnum_runs_nonempty: "xs \<noteq> [] \<Longrightarrow> is_lower_alnum (hd xs) \<Longrightarrow> alnum_runs xs \<noteq> []"
  by (cases xs) auto

lemma alnum_runs_dropWhile:
  "alnum_runs (dropWhile (\<lambda>d. \<not> is_lower_alnum d) xs) = alnum_runs xs"
  by (induction xs) simp_all

lemma dash_runs_hd_alnum:
  "(dash_runs s \<noteq> [] \<and> is_lower_alnum (hd (dash_runs s))) = (s \<noteq> [] \<and> is_lower_alnum (hd s))"
  by (cases s) (auto simp: dash_not_alnum)

lemma alnum_runs_dash_runs: "alnum_runs (dash_runs s) = alnum_runs s"
proof (induction s rule: dash_runs.induct)
  case 1
  show ?case by simp
next
  case (2 c cs)
  show ?case
  proof (cases "is_lower_alnum c")
    case True
    with 2 have ih: "alnum_runs (dash_runs cs) = alnum_runs cs" by simp
    have "alnum_runs (dash_runs (c # cs)) = alnum_runs (c # dash_runs cs)" using True by simp
    also have "\<dots> = alnum_runs (c # cs)"
      unfolding alnum_runs_Cons [OF True] ih dash_runs_hd_alnum ..
    finally show ?thesis .
  next
    case False
    with 2 have "alnum_runs (dash_runs (dropWhile (\<lambda>d. \<not> is_lower_alnum d) cs)) =
        alnum_runs (dropWhile (\<lambda>d. \<not> is_lower_alnum d) cs)" by simp
    with False show ?thesis by (simp add: dash_not_alnum alnum_runs_dropWhile)
  qed
qed

lemma alnum_runs_behind:
  "list_all (\<lambda>d. \<not> is_lower_alnum d) ys \<Longrightarrow> alnum_runs (xs @ ys) = alnum_runs xs"
proof (induction xs)
  case Nil
  then show ?case by (induction ys) simp_all
next
  case (Cons x xs)
  show ?case
  proof (cases "is_lower_alnum x")
    case True
    have h: "(xs @ ys \<noteq> [] \<and> is_lower_alnum (hd (xs @ ys))) = (xs \<noteq> [] \<and> is_lower_alnum (hd xs))"
      using Cons.prems by (cases xs; cases ys) auto
    show ?thesis
      using Cons.IH [OF Cons.prems] h
      by (simp only: append_Cons alnum_runs_Cons [OF True]) 
  next
    case False
    with Cons show ?thesis by simp
  qed
qed

lemma alnum_runs_trim_dashes: "alnum_runs (trim_dashes t) = alnum_runs t"
proof -
  let ?d = "\<lambda>c. c = CHR ''-''"
  have l: "alnum_runs (dropWhile ?d xs) = alnum_runs xs" for xs
    by (induction xs) (simp_all add: dash_not_alnum)
  have r: "alnum_runs (rev (dropWhile ?d (rev xs))) = alnum_runs xs" for xs
  proof -
    have "xs = rev (dropWhile ?d (rev xs)) @ rev (takeWhile ?d (rev xs))"
      by (metis rev_append rev_rev_ident takeWhile_dropWhile_id)
    moreover have "list_all (\<lambda>d. \<not> is_lower_alnum d) (rev (takeWhile ?d (rev xs)))"
      by (auto simp: list_all_iff dash_not_alnum dest: set_takeWhileD)
    ultimately show ?thesis using alnum_runs_behind by metis
  qed
  show ?thesis unfolding trim_dashes_def by (simp only: r l)
qed

lemma dashed_Cons: "rs \<noteq> [] \<Longrightarrow> dashed ((c # hd rs) # tl rs) = c # dashed rs"
  by (cases rs rule: dashed.cases) simp_all

lemma dashed_single: "rs \<noteq> [] \<Longrightarrow> dashed ([c] # rs) = c # CHR ''-'' # dashed rs"
  by (cases rs) simp_all

lemma canonical_base_runs: "canonical_base t \<Longrightarrow> dashed (alnum_runs t) = t"
proof (induction "length t" arbitrary: t rule: less_induct)
  case less
  show ?case
  proof (cases t)
    case Nil
    then show ?thesis by simp
  next
    case (Cons c t')
    from less.prems Cons have c: "is_lower_alnum c"
      by (auto simp: canonical_base_def base_chars_def)
    from less.prems Cons have bc: "base_chars t'" and nd: "no_double_dash t'"
      by (auto simp: canonical_base_def base_chars_def no_double_dash_def successively_Cons)
    show ?thesis
    proof (cases t')
      case Nil
      with Cons c show ?thesis by simp
    next
      case t': (Cons d t'')
      from less.prems Cons t' have ld: "last (d # t'') \<noteq> CHR ''-''"
        by (simp add: canonical_base_def)
      show ?thesis
      proof (cases "is_lower_alnum d")
        case True
        then have "canonical_base t'"
          using bc nd ld t' by (auto simp: canonical_base_def dash_not_alnum)
        then have ih: "dashed (alnum_runs t') = t'" using less.hyps Cons by simp
        have ne: "alnum_runs t' \<noteq> []" using True t' by simp
        show ?thesis
          using True t' ih ne unfolding Cons alnum_runs_Cons [OF c]
          by (simp add: dashed_Cons del: alnum_runs.simps)
      next
        case False
        then have d: "d = CHR ''-''" using bc t' by (simp add: base_chars_def)
        from ld d have ne: "t'' \<noteq> []" by auto
        have h: "hd t'' \<noteq> CHR ''-''"
          using nd t' d ne by (cases t'') (auto simp: no_double_dash_def)
        have "canonical_base t''"
          using bc nd ld t' ne h
          by (auto simp: canonical_base_def base_chars_def no_double_dash_def successively_Cons)
        then have ih: "dashed (alnum_runs t'') = t''" using less.hyps Cons t' by simp
        have ha: "is_lower_alnum (hd t'')"
          using bc t' ne h by (cases t'') (auto simp: base_chars_def)
        have ne': "alnum_runs t'' \<noteq> []" using ne ha by (rule alnum_runs_nonempty)
        have "alnum_runs t = [c] # alnum_runs t''"
          unfolding Cons alnum_runs_Cons [OF c] using t' False by simp
        then show ?thesis using ih ne' Cons t' d by (simp add: dashed_single)
      qed
    qed
  qed
qed

lemma normalize_base_runs: "normalize_base lc s = dashed (alnum_runs (toLowerCase lc s))"
proof -
  have "dashed (alnum_runs (normalize_base lc s)) = normalize_base lc s"
    by (rule canonical_base_runs [OF normalize_base_canonical])
  then show ?thesis
    by (simp add: normalize_base_def alnum_runs_trim_dashes alnum_runs_dash_runs)
qed

lemma alnum_runs_no_Nil: "[] \<notin> set (alnum_runs s)"
  by (induction s rule: alnum_runs.induct) auto

lemma dashed_Nil: "[] \<notin> set rs \<Longrightarrow> (dashed rs = []) = (rs = [])"
  by (cases rs rule: dashed.cases) auto

lemma normalize_base_Nil: "(normalize_base lc s = []) = (alnum_runs (toLowerCase lc s) = [])"
  by (simp add: normalize_base_runs dashed_Nil alnum_runs_no_Nil)

subsection \<open>The split into name and extension\<close>

lemma lastIndexOf_None: "(lastIndexOf c s = None) = (c \<notin> set s)"
  by (induction s) (auto split: option.splits)

lemma lastIndexOf_append: "c \<notin> set ys \<Longrightarrow> lastIndexOf c (xs @ c # ys) = Some (length xs)"
proof (induction xs)
  case Nil
  then have "lastIndexOf c ys = None" by (simp add: lastIndexOf_None)
  then show ?case by simp
next
  case (Cons x xs)
  then show ?case by simp
qed

lemma lastIndexOf_Some:
  "lastIndexOf c s = Some i \<Longrightarrow> \<exists>ys. drop i s = c # ys \<and> c \<notin> set ys \<and> i < length s"
proof (induction s arbitrary: i)
  case Nil
  then show ?case by simp
next
  case (Cons x xs)
  show ?case
  proof (cases "lastIndexOf c xs")
    case None
    with Cons.prems have "x = c" "i = 0" by (auto split: if_splits)
    with None show ?thesis by (simp add: lastIndexOf_None)
  next
    case (Some j)
    with Cons.prems have i: "i = Suc j" by simp
    from Cons.IH [OF Some] show ?thesis by (simp add: i)
  qed
qed

lemma name_ext_append: "name_part f @ ext_part f = f"
  by (simp add: name_part_def ext_part_def split: option.splits nat.splits)

lemma ext_part_shape:
  "ext_part f = [] \<or> (\<exists>e. ext_part f = CHR ''.'' # e \<and> CHR ''.'' \<notin> set e)"
proof (cases "lastIndexOf CHR ''.'' f")
  case None
  then show ?thesis by (simp add: ext_part_def)
next
  case (Some i)
  show ?thesis
  proof (cases i)
    case 0
    with Some show ?thesis by (simp add: ext_part_def)
  next
    case (Suc j)
    from lastIndexOf_Some [OF Some] Some Suc show ?thesis by (auto simp: ext_part_def)
  qed
qed

lemma ext_part_Nil: "(ext_part f = []) = (CHR ''.'' \<notin> set (tl f))"
proof (cases f)
  case Nil
  then show ?thesis by (simp add: ext_part_def)
next
  case (Cons c cs)
  show ?thesis
  proof (cases "lastIndexOf CHR ''.'' cs")
    case None
    then have "CHR ''.'' \<notin> set cs" by (simp add: lastIndexOf_None)
    with None Cons show ?thesis by (simp add: ext_part_def)
  next
    case (Some i)
    then have "CHR ''.'' \<in> set cs" using lastIndexOf_None [of "CHR ''.''" cs] by auto
    moreover from lastIndexOf_Some [OF Some] have "drop i cs \<noteq> []" by auto
    ultimately show ?thesis using Some Cons by (simp add: ext_part_def)
  qed
qed

lemma name_part_nonempty: "ext_part f \<noteq> [] \<Longrightarrow> name_part f \<noteq> []"
  by (auto simp: name_part_def ext_part_def split: option.splits nat.splits)

lemma normalize_base_no_dot: "CHR ''.'' \<notin> set (normalize_base lc s)"
  using normalize_base_canonical [of lc s] by (simp add: canonical_base_def base_chars_no_dot)

lemma normalizeFilename_no_ext:
  assumes "case_mapping lc" and "CHR ''.'' \<notin> set b"
  shows "normalizeFilename lc b = normalize_base lc b"
proof -
  have "lastIndexOf CHR ''.'' b = None" using assms(2) by (simp add: lastIndexOf_None)
  then show ?thesis
    by (simp add: normalizeFilename_def name_part_def ext_part_def toLowerCase_def
        case_mapping_Nil [OF assms(1)])
qed

lemma normalizeFilename_dot_first:
  assumes "case_mapping lc" and "CHR ''.'' \<notin> set e"
  shows "normalizeFilename lc (CHR ''.'' # e) = normalize_base lc (CHR ''.'' # e)"
proof -
  have "lastIndexOf CHR ''.'' ([] @ CHR ''.'' # e) = Some (length ([] :: string))"
    using assms(2) by (rule lastIndexOf_append)
  then show ?thesis
    by (simp add: normalizeFilename_def name_part_def ext_part_def toLowerCase_def
        case_mapping_Nil [OF assms(1)])
qed

lemma normalizeFilename_split:
  assumes "CHR ''.'' \<notin> set e" and "b \<noteq> []"
  shows "normalizeFilename lc (b @ CHR ''.'' # e) = normalize_base lc b @ toLowerCase lc (CHR ''.'' # e)"
proof -
  obtain n where n: "length b = Suc n" using assms(2) by (cases b) auto
  have "lastIndexOf CHR ''.'' (b @ CHR ''.'' # e) = Some (Suc n)"
    using lastIndexOf_append [OF assms(1), of b] n by simp
  then show ?thesis
    using n by (simp add: normalizeFilename_def name_part_def ext_part_def)
qed

lemma normalizeFilename_idem_iff:
  assumes cm: "case_mapping lc"
  shows "(normalizeFilename lc (normalizeFilename lc f) = normalizeFilename lc f) =
     (ext_part f = [] \<or> normalize_base lc (name_part f) \<noteq> [])"
proof -
  define b where "b = normalize_base lc (name_part f)"
  have r: "normalizeFilename lc f = b @ lc (ext_part f)"
    by (simp add: normalizeFilename_def b_def toLowerCase_def)
  have bd: "CHR ''.'' \<notin> set b" unfolding b_def by (rule normalize_base_no_dot)
  have bb: "normalize_base lc b = b" unfolding b_def by (rule normalize_base_idem [OF cm])
  from ext_part_shape [of f] show ?thesis
  proof
    assume e: "ext_part f = []"
    then have "normalizeFilename lc f = b" using r by (simp add: case_mapping_Nil [OF cm])
    then show ?thesis using normalizeFilename_no_ext [OF cm bd] bb e by simp
  next
    assume "\<exists>e. ext_part f = CHR ''.'' # e \<and> CHR ''.'' \<notin> set e"
    then obtain e where e: "ext_part f = CHR ''.'' # e" and nd: "CHR ''.'' \<notin> set e" by blast
    define e' where "e' = lc e"
    have le: "lc (ext_part f) = CHR ''.'' # e'"
      by (simp add: e e'_def case_mapping_dot [OF cm])
    have nd': "CHR ''.'' \<notin> set e'" unfolding e'_def by (rule case_mapping_no_dot [OF cm nd])
    have ll: "lc (CHR ''.'' # e') = CHR ''.'' # e'"
      using le case_mapping_idem [OF cm, of "ext_part f"] by simp
    show ?thesis
    proof (cases "b = []")
      case True
      then have rr: "normalizeFilename lc f = CHR ''.'' # e'" using r le by simp
      have "normalizeFilename lc (CHR ''.'' # e') \<noteq> CHR ''.'' # e'"
        using normalizeFilename_dot_first [OF cm nd'] normalize_base_no_dot [of lc "CHR ''.'' # e'"]
        by (metis list.set_intros(1))
      then show ?thesis using rr True e by (simp add: b_def)
    next
      case False
      have "normalizeFilename lc (b @ CHR ''.'' # e') = b @ CHR ''.'' # e'"
        using normalizeFilename_split [OF nd' False, of lc] bb ll by (simp add: toLowerCase_def)
      then show ?thesis using r le False by (simp add: b_def)
    qed
  qed
qed

lemma normalizeFilename_lower:
  assumes cm: "case_mapping lc"
  shows "toLowerCase lc (normalizeFilename lc f) = normalizeFilename lc f"
proof -
  have "base_chars (normalize_base lc (name_part f))"
    using normalize_base_canonical by (simp add: canonical_base_def)
  then have "list_all plain_char (normalize_base lc (name_part f))" by (rule base_chars_plain)
  then show ?thesis
    by (simp add: normalizeFilename_def toLowerCase_def case_mapping_behind [OF cm])
qed

subsection \<open>The case mapping of the examples\<close>

lemma lower_char_idem: "lower_char (lower_char c) = lower_char c"
  by (simp add: lower_char_def is_upper_def)

lemma lower_char_plain: "plain_char c \<Longrightarrow> lower_char c = c"
  by (simp add: lower_char_def plain_char_def)

lemma lower_char_dot: "(lower_char c = CHR ''.'') = (c = CHR ''.'')"
  by (auto simp add: lower_char_def is_upper_def char_of_eq_iff take_bit_eq_mod)

lemma lower_char_high: "128 \<le> (of_char c :: nat) \<Longrightarrow> lower_char c = c"
  by (simp add: lower_char_def is_upper_def)

lemma lower_char_eq_high:
  "128 \<le> (of_char d :: nat) \<Longrightarrow> (lower_char c = d) = (c = d)"
  by (auto simp add: lower_char_def is_upper_def char_of_eq_iff take_bit_eq_mod)

lemma example_lower_Cons:
  "\<not> (a = CHR 0xE2 \<and> prefix [CHR 0x84, CHR 0xAA] s) \<Longrightarrow>
     example_lower (a # s) = lower_char a # example_lower s"
  by (cases s rule: example_lower.cases) auto

lemma example_lower_kelvin:
  "example_lower (CHR 0xE2 # CHR 0x84 # CHR 0xAA # s) = CHR ''k'' # example_lower s"
  by simp

lemma example_lower_prefix:
  "prefix [CHR 0x84, CHR 0xAA] (example_lower t) \<Longrightarrow> prefix [CHR 0x84, CHR 0xAA] t"
proof (cases t)
  case Nil
  assume "prefix [CHR 0x84, CHR 0xAA] (example_lower t)"
  with Nil show ?thesis by simp
next
  case (Cons b t')
  assume p: "prefix [CHR 0x84, CHR 0xAA] (example_lower t)"
  show ?thesis
  proof (cases "b = CHR 0xE2 \<and> prefix [CHR 0x84, CHR 0xAA] t'")
    case True
    then obtain s where "t' = CHR 0x84 # CHR 0xAA # s" by (auto simp: prefix_def)
    with p Cons True show ?thesis by simp
  next
    case False
    then have e: "example_lower t = lower_char b # example_lower t'"
      unfolding Cons by (rule example_lower_Cons)
    with p have b: "lower_char b = CHR 0x84" and p': "prefix [CHR 0xAA] (example_lower t')"
      by simp_all
    from b have b': "b = CHR 0x84" by (simp add: lower_char_eq_high)
    show ?thesis
    proof (cases t')
      case Nil
      with p' show ?thesis by simp
    next
      case c: (Cons c t'')
      show ?thesis
      proof (cases "c = CHR 0xE2 \<and> prefix [CHR 0x84, CHR 0xAA] t''")
        case True
        then obtain s where "t'' = CHR 0x84 # CHR 0xAA # s" by (auto simp: prefix_def)
        with p' c True show ?thesis by simp
      next
        case False
        then have "example_lower t' = lower_char c # example_lower t''"
          unfolding c by (rule example_lower_Cons)
        with p' have "lower_char c = CHR 0xAA" by simp
        then have "c = CHR 0xAA" by (simp add: lower_char_eq_high)
        with b' c Cons show ?thesis by simp
      qed
    qed
  qed
qed

lemma example_lower_idem: "example_lower (example_lower y) = example_lower y"
proof (induction y rule: length_induct)
  case (1 y)
  show ?case
  proof (cases y)
    case Nil
    then show ?thesis by simp
  next
    case (Cons a s)
    show ?thesis
    proof (cases "a = CHR 0xE2 \<and> prefix [CHR 0x84, CHR 0xAA] s")
      case True
      then obtain s' where s': "s = CHR 0x84 # CHR 0xAA # s'" by (auto simp: prefix_def)
      have ih: "example_lower (example_lower s') = example_lower s'"
        using 1 Cons s' by simp
      have "example_lower (CHR ''k'' # example_lower s') = lower_char CHR ''k'' # example_lower (example_lower s')"
        by (rule example_lower_Cons) simp
      with ih True Cons s' show ?thesis by (simp add: lower_char_def is_upper_def)
    next
      case False
      then have e: "example_lower y = lower_char a # example_lower s"
        unfolding Cons by (rule example_lower_Cons)
      have ih: "example_lower (example_lower s) = example_lower s" using 1 Cons by simp
      have n: "\<not> (lower_char a = CHR 0xE2 \<and> prefix [CHR 0x84, CHR 0xAA] (example_lower s))"
        using False example_lower_prefix [of s] by (auto simp: lower_char_eq_high)
      show ?thesis
        unfolding e example_lower_Cons [OF n] ih lower_char_idem ..
    qed
  qed
qed

lemma example_lower_behind:
  "list_all plain_char x \<Longrightarrow> example_lower (x @ example_lower y) = x @ example_lower y"
proof (induction x)
  case Nil
  show ?case by (simp add: example_lower_idem)
next
  case (Cons c x)
  then have p: "plain_char c" and ih: "example_lower (x @ example_lower y) = x @ example_lower y"
    by simp_all
  have "c \<noteq> CHR 0xE2" using p by (auto simp: plain_char_def)
  then have "example_lower (c # x @ example_lower y) =
      lower_char c # example_lower (x @ example_lower y)"
    by (intro example_lower_Cons) simp
  with ih p show ?case by (simp add: lower_char_plain)
qed

lemma example_lower_no_dot: "CHR ''.'' \<notin> set x \<Longrightarrow> CHR ''.'' \<notin> set (example_lower x)"
  by (induction x rule: example_lower.induct)
     (auto simp: lower_char_dot eq_commute [of "CHR ''.''"])

lemma example_lower_case_mapping: "case_mapping example_lower"
proof -
  have "example_lower (CHR ''.'' # x) = CHR ''.'' # example_lower x" for x
    using example_lower_Cons [of "CHR ''.''" x] by (simp add: lower_char_def is_upper_def)
  then show ?thesis
    unfolding case_mapping_def
    by (simp add: example_lower_behind example_lower_no_dot)
qed

text \<open>
  C3 (amended). For every file name \<open>f\<close>, the result of \<^verbatim>\<open>normalizeFilename\<close> is the
  normalised base name followed by the lower-cased extension, where the extension is the
  part of \<open>f\<close> from its last full stop on when there is a full stop after the first
  character, and empty otherwise, and the normalised base name is the lower-cased rest
  with every run of characters outside \<^verbatim>\<open>[a-z0-9]\<close> replaced by a single dash and
  with the leading and trailing dashes trimmed: the runs of \<^verbatim>\<open>[a-z0-9]\<close> joined by
  dashes. The result is entirely lower-case. \<^verbatim>\<open>normalizeFilename\<close> is idempotent
  exactly on the file names that have no extension or whose base name keeps at least one
  run; on the others, such as \<^verbatim>\<open>_.png\<close>, which becomes \<^verbatim>\<open>.png\<close> and then
  \<^verbatim>\<open>png\<close>, a second call changes the result.
\<close>

theorem normalizeFilename_idempotent_lower_case:
  "normalizeFilename lc f =
     dashed (alnum_runs (toLowerCase lc (name_part f))) @ toLowerCase lc (ext_part f) \<and>
   f = name_part f @ ext_part f \<and>
   (CHR ''.'' \<notin> set (tl f) \<longrightarrow> ext_part f = []) \<and>
   (CHR ''.'' \<in> set (tl f) \<longrightarrow>
      name_part f \<noteq> [] \<and> ext_part f \<noteq> [] \<and> hd (ext_part f) = CHR ''.'' \<and>
      CHR ''.'' \<notin> set (tl (ext_part f))) \<and>
   (case_mapping lc \<longrightarrow>
      toLowerCase lc (normalizeFilename lc f) = normalizeFilename lc f \<and>
      ((normalizeFilename lc (normalizeFilename lc f) = normalizeFilename lc f) =
         (CHR ''.'' \<notin> set (tl f) \<or> alnum_runs (toLowerCase lc (name_part f)) \<noteq> [])))"
proof -
  have 1: "normalizeFilename lc f =
      dashed (alnum_runs (toLowerCase lc (name_part f))) @ toLowerCase lc (ext_part f)"
    by (simp add: normalizeFilename_def normalize_base_runs)
  have 2: "f = name_part f @ ext_part f" by (simp add: name_ext_append)
  have 3: "CHR ''.'' \<notin> set (tl f) \<longrightarrow> ext_part f = []" by (simp add: ext_part_Nil)
  have 4: "CHR ''.'' \<in> set (tl f) \<longrightarrow>
      name_part f \<noteq> [] \<and> ext_part f \<noteq> [] \<and> hd (ext_part f) = CHR ''.'' \<and>
      CHR ''.'' \<notin> set (tl (ext_part f))"
  proof
    assume "CHR ''.'' \<in> set (tl f)"
    then have e: "ext_part f \<noteq> []" by (simp add: ext_part_Nil)
    with ext_part_shape [of f] name_part_nonempty [of f] show
      "name_part f \<noteq> [] \<and> ext_part f \<noteq> [] \<and> hd (ext_part f) = CHR ''.'' \<and>
       CHR ''.'' \<notin> set (tl (ext_part f))"
      by auto
  qed
  have 5: "case_mapping lc \<longrightarrow>
      toLowerCase lc (normalizeFilename lc f) = normalizeFilename lc f \<and>
      ((normalizeFilename lc (normalizeFilename lc f) = normalizeFilename lc f) =
         (CHR ''.'' \<notin> set (tl f) \<or> alnum_runs (toLowerCase lc (name_part f)) \<noteq> []))"
    using normalizeFilename_lower [of lc f] normalizeFilename_idem_iff [of lc f]
    by (simp add: ext_part_Nil normalize_base_Nil)
  from 1 2 3 4 5 show ?thesis by blast
qed

theorem normalizeFilename_idempotent_lower_case_witness:
  "normalizeFilename example_lower ''My  Photo (1).final.PNG'' = ''my-photo-1-final.png'' \<and>
   normalizeFilename example_lower (normalizeFilename example_lower ''My  Photo (1).final.PNG'') =
     normalizeFilename example_lower ''My  Photo (1).final.PNG'' \<and>
   toLowerCase example_lower (normalizeFilename example_lower ''My  Photo (1).final.PNG'') =
     normalizeFilename example_lower ''My  Photo (1).final.PNG'' \<and>
   normalizeFilename example_lower ([CHR 0xE2, CHR 0x84, CHR 0xAA] @ ''1.PNG'') = ''k1.png''"
proof -
  have n: "name_part ''My  Photo (1).final.PNG'' = ''My  Photo (1).final''" by code_simp
  have e: "ext_part ''My  Photo (1).final.PNG'' = ''.PNG''" by code_simp
  have l: "example_lower ''My  Photo (1).final'' = ''my  photo (1).final''" by code_simp
  have r: "alnum_runs ''my  photo (1).final'' = [''my'', ''photo'', ''1'', ''final'']" by code_simp
  have d: "dashed [''my'', ''photo'', ''1'', ''final''] = ''my-photo-1-final''" by code_simp
  have x: "example_lower ''.PNG'' = ''.png''" by code_simp
  have n': "name_part ([CHR 0xE2, CHR 0x84, CHR 0xAA] @ ''1.PNG'') = [CHR 0xE2, CHR 0x84, CHR 0xAA] @ ''1''"
    by code_simp
  have e': "ext_part ([CHR 0xE2, CHR 0x84, CHR 0xAA] @ ''1.PNG'') = ''.PNG''" by code_simp
  have l': "example_lower ([CHR 0xE2, CHR 0x84, CHR 0xAA] @ ''1'') = ''k1''" by code_simp
  have r': "alnum_runs ''k1'' = [''k1'']" by code_simp
  have d': "dashed [''k1''] = ''k1''" by code_simp
  note t = normalizeFilename_idempotent_lower_case [of example_lower "''My  Photo (1).final.PNG''"]
  note u = normalizeFilename_idempotent_lower_case
    [of example_lower "[CHR 0xE2, CHR 0x84, CHR 0xAA] @ ''1.PNG''"]
  from t have "normalizeFilename example_lower ''My  Photo (1).final.PNG'' =
      dashed (alnum_runs (toLowerCase example_lower (name_part ''My  Photo (1).final.PNG''))) @
      toLowerCase example_lower (ext_part ''My  Photo (1).final.PNG'')" by (rule conjunct1)
  then have 1: "normalizeFilename example_lower ''My  Photo (1).final.PNG'' = ''my-photo-1-final.png''"
    unfolding toLowerCase_def n e l r d x by simp
  from t example_lower_case_mapping have i:
      "(normalizeFilename example_lower (normalizeFilename example_lower ''My  Photo (1).final.PNG'') =
         normalizeFilename example_lower ''My  Photo (1).final.PNG'') =
       (CHR ''.'' \<notin> set (tl ''My  Photo (1).final.PNG'') \<or>
        alnum_runs (toLowerCase example_lower (name_part ''My  Photo (1).final.PNG'')) \<noteq> [])"
    by blast
  have 2: "normalizeFilename example_lower (normalizeFilename example_lower ''My  Photo (1).final.PNG'') =
         normalizeFilename example_lower ''My  Photo (1).final.PNG''"
    unfolding i toLowerCase_def n l r by simp
  from t example_lower_case_mapping have 3:
      "toLowerCase example_lower (normalizeFilename example_lower ''My  Photo (1).final.PNG'') =
         normalizeFilename example_lower ''My  Photo (1).final.PNG''"
    by blast
  from u have "normalizeFilename example_lower ([CHR 0xE2, CHR 0x84, CHR 0xAA] @ ''1.PNG'') =
      dashed (alnum_runs (toLowerCase example_lower
        (name_part ([CHR 0xE2, CHR 0x84, CHR 0xAA] @ ''1.PNG'')))) @
      toLowerCase example_lower (ext_part ([CHR 0xE2, CHR 0x84, CHR 0xAA] @ ''1.PNG''))"
    by (rule conjunct1)
  then have 4: "normalizeFilename example_lower ([CHR 0xE2, CHR 0x84, CHR 0xAA] @ ''1.PNG'') = ''k1.png''"
    unfolding toLowerCase_def n' e' l' r' d' x by simp
  from 1 2 3 4 show ?thesis by blast
qed

theorem normalizeFilename_not_idempotent:
  "normalizeFilename example_lower ''_.png'' = ''.png'' \<and>
   normalizeFilename example_lower (normalizeFilename example_lower ''_.png'') = ''png''"
  by code_simp

subsection \<open>Validation, verification and the trace of a request\<close>

lemma validation_errors_filter:
  "validation_errors s = map snd (filter (\<lambda>p. fst p = []) (required_fields s))"
  by (simp add: validation_errors_def required_fields_def push_if_def Let_def)

lemma submitCandidate_invalid:
  assumes "json_body request = Some s" and "validation_errors s \<noteq> []"
    and "http_method request \<noteq> ''OPTIONS''"
  shows "submitCandidate cfg w request t0 =
     (validation_response (getCorsHeaders cfg request) (validation_errors s),
      t0 @ [(ContextLog ''Processing candidate submission request'', Returned)])"
  using assms
  by (simp add: submitCandidate_def process_submission_def io_return_def Let_def)

lemma verifyTurnstile_False:
  "(verifyTurnstile cfg w token t = (Inr False, t')) =
     (\<not> IS_LOCAL_DEV cfg \<and>
      reply_flag w t (TurnstileSiteverify (TURNSTILE_SECRET_KEY cfg) token) = Some False \<and>
      t' = t @ [(TurnstileSiteverify (TURNSTILE_SECRET_KEY cfg) token, Returned)])"
  by (auto simp: verifyTurnstile_def io_return_def call_flag_def split: option.splits)

lemma submitCandidate_rejected:
  assumes "json_body request = Some s" and "validation_errors s = []"
    and "http_method request \<noteq> ''OPTIONS''"
    and "verifyTurnstile cfg w (turnstileToken s)
           (t0 @ [(ContextLog ''Processing candidate submission request'', Returned)]) = (Inr False, t2)"
  shows "submitCandidate cfg w request t0 = (token_response (getCorsHeaders cfg request), t2)"
  using assms
  by (simp add: submitCandidate_def process_submission_def io_return_def io_bind_def Let_def)

lemma getCors_in:
  "or_empty (origin_header request) \<in> set (ALLOWED_ORIGINS cfg) \<Longrightarrow>
   Access_Control_Allow_Origin (getCorsHeaders cfg request) = Some (or_empty (origin_header request))"
  by (simp add: getCorsHeaders_def Let_def)

lemma getCors_out:
  "or_empty (origin_header request) \<notin> set (ALLOWED_ORIGINS cfg) \<Longrightarrow>
   Access_Control_Allow_Origin (getCorsHeaders cfg request) =
     (case ALLOWED_ORIGINS cfg of [] \<Rightarrow> None | first # _ \<Rightarrow> Some first)"
  by (simp add: getCorsHeaders_def Let_def)

lemma getCors_member:
  "Access_Control_Allow_Origin (getCorsHeaders cfg request) = Some v \<Longrightarrow> v \<in> set (ALLOWED_ORIGINS cfg)"
  by (auto simp: getCorsHeaders_def Let_def split: if_splits list.splits)

lemma returned_halted: "returned evs \<Longrightarrow> halted evs"
  by (induction evs rule: halted.induct) (auto simp: returned_def)

lemma returned_append_halted: "returned a \<Longrightarrow> halted b \<Longrightarrow> halted (a @ b)"
  by (induction a rule: halted.induct) (auto simp: returned_def)

lemma blobs_halted: "list_all (\<lambda>e. is_create_blob (fst e)) evs \<Longrightarrow> halted evs"
  by (induction evs rule: halted.induct) auto

lemma io_ok_return: "io_ok P (io_return x)"
  by (simp add: io_ok_def io_return_def returned_def)

lemma io_ok_throw: "io_ok P (io_throw e)"
  by (simp add: io_ok_def io_throw_def)

lemma io_ok_bind:
  assumes m: "io_ok P m" and f: "\<And>x. io_ok P (f x)"
  shows "io_ok P (io_bind m f)"
  unfolding io_ok_def
proof
  fix t
  from m obtain n1 where n1: "snd (m t) = t @ n1" "list_all (\<lambda>e. P (fst e)) n1"
    "case fst (m t) of Inr x \<Rightarrow> returned n1 | Inl e \<Rightarrow> halted n1"
    unfolding io_ok_def by blast
  show "\<exists>new. snd (io_bind m f t) = t @ new \<and> list_all (\<lambda>e. P (fst e)) new \<and>
        (case fst (io_bind m f t) of Inr x \<Rightarrow> returned new | Inl e \<Rightarrow> halted new)"
  proof (cases "fst (m t)")
    case (Inl e)
    then have "io_bind m f t = (Inl e, t @ n1)"
      using n1(1) by (cases "m t") (simp add: io_bind_def)
    with n1 Inl show ?thesis by auto
  next
    case (Inr x)
    then have b: "io_bind m f t = f x (t @ n1)"
      using n1(1) by (cases "m t") (simp add: io_bind_def)
    from f [of x] obtain n2 where n2: "snd (f x (t @ n1)) = (t @ n1) @ n2"
      "list_all (\<lambda>e. P (fst e)) n2"
      "case fst (f x (t @ n1)) of Inr y \<Rightarrow> returned n2 | Inl e \<Rightarrow> halted n2"
      unfolding io_ok_def by blast
    have r1: "returned n1" using n1(3) Inr by simp
    have "case fst (f x (t @ n1)) of Inr y \<Rightarrow> returned (n1 @ n2) | Inl e \<Rightarrow> halted (n1 @ n2)"
      using n2(3) r1 by (auto simp: returned_def returned_append_halted split: sum.splits)
    with n2 n1(2) b show ?thesis by (intro exI [of _ "n1 @ n2"]) simp
  qed
qed

lemma io_ok_log: "P (ContextLog msg) \<Longrightarrow> io_ok P (context_log msg)"
  by (simp add: io_ok_def context_log_def returned_def)

lemma io_ok_call_text: "P c \<Longrightarrow> io_ok P (call_text w c)"
  by (auto simp: io_ok_def call_text_def returned_def split: option.splits)

lemma io_ok_call_unit: "P c \<Longrightarrow> io_ok P (call_unit w c)"
  by (auto simp: io_ok_def call_unit_def returned_def)

lemma io_ok_call_flag: "P c \<Longrightarrow> io_ok P (call_flag w c)"
  by (auto simp: io_ok_def call_flag_def returned_def split: option.splits)

lemma io_ok_call_pull: "P c \<Longrightarrow> io_ok P (call_pull w c)"
  by (auto simp: io_ok_def call_pull_def returned_def split: option.splits)

lemma io_ok_randomUUID: "P RandomUUID \<Longrightarrow> io_ok P (randomUUID w)"
  by (simp add: io_ok_def randomUUID_def returned_def)

lemma io_ok_date: "P DateNow \<Longrightarrow> io_ok P (date_now_iso w)"
  by (simp add: io_ok_def date_now_iso_def returned_def)

lemma io_ok_weaken:
  assumes "io_ok P m" and "\<And>c. P c \<Longrightarrow> Q c"
  shows "io_ok Q m"
  unfolding io_ok_def
proof
  fix t
  from assms(1) obtain new where n: "snd (m t) = t @ new" "list_all (\<lambda>e. P (fst e)) new"
    "case fst (m t) of Inr x \<Rightarrow> returned new | Inl e \<Rightarrow> halted new"
    unfolding io_ok_def by blast
  have "list_all (\<lambda>e. Q (fst e)) new" using n(2) assms(2) by (auto simp: list_all_iff)
  with n show "\<exists>new. snd (m t) = t @ new \<and> list_all (\<lambda>e. Q (fst e)) new \<and>
      (case fst (m t) of Inr x \<Rightarrow> returned new | Inl e \<Rightarrow> halted new)"
    by blast
qed

lemma tree_item_for_cases:
  "tree_item_for cfg w tok f t = (r, t') \<Longrightarrow>
     (t' = t \<and> (\<exists>x. r = Inr x)) \<or>
     (\<exists>c. is_create_blob c \<and>
        ((t' = t @ [(c, Returned)] \<and> (\<exists>x. r = Inr x)) \<or> (t' = t @ [(c, Threw)] \<and> (\<exists>e. r = Inl e))))"
  by (auto simp: tree_item_for_def io_bind_def io_return_def call_text_def is_create_blob_def
      split: if_splits option.splits)

lemma run_all_tree_items:
  "run_all (map (tree_item_for cfg w tok) files) t = (rs, t') \<Longrightarrow>
     \<exists>new. t' = t @ new \<and> list_all (\<lambda>e. is_create_blob (fst e)) new \<and>
       ((\<exists>xs. collect rs = Inr xs) \<longrightarrow> returned new)"
proof (induction files arbitrary: t rs t')
  case Nil
  then show ?case by (simp add: returned_def)
next
  case (Cons f files)
  obtain r t1 where h: "tree_item_for cfg w tok f t = (r, t1)" by (cases "tree_item_for cfg w tok f t")
  obtain rs' t2 where tl: "run_all (map (tree_item_for cfg w tok) files) t1 = (rs', t2)"
    by (cases "run_all (map (tree_item_for cfg w tok) files) t1")
  from Cons.prems h tl have eq: "rs = r # rs'" "t' = t2" by auto
  from Cons.IH [OF tl] obtain n2 where n2: "t2 = t1 @ n2"
    "list_all (\<lambda>e. is_create_blob (fst e)) n2" "(\<exists>xs. collect rs' = Inr xs) \<longrightarrow> returned n2"
    by blast
  from tree_item_for_cases [OF h] show ?case
  proof (elim disjE exE conjE)
    fix x assume "t1 = t" "r = Inr x"
    with n2 eq show ?thesis by (auto split: sum.splits)
  next
    fix c x assume "is_create_blob c" "t1 = t @ [(c, Returned)]" "r = Inr x"
    with n2 eq show ?thesis
      by (intro exI [of _ "(c, Returned) # n2"]) (auto simp: returned_def split: sum.splits)
  next
    fix c e assume "is_create_blob c" "t1 = t @ [(c, Threw)]" "r = Inl e"
    with n2 eq show ?thesis
      by (intro exI [of _ "(c, Threw) # n2"]) auto
  qed
qed

lemma io_ok_tree_items:
  assumes "\<And>c. is_create_blob c \<Longrightarrow> P c"
  shows "io_ok P (promise_all (map (tree_item_for cfg w tok) files))"
  unfolding io_ok_def
proof
  fix t
  obtain rs t' where r: "run_all (map (tree_item_for cfg w tok) files) t = (rs, t')"
    by (cases "run_all (map (tree_item_for cfg w tok) files) t")
  from run_all_tree_items [OF r] obtain new where n: "t' = t @ new"
    "list_all (\<lambda>e. is_create_blob (fst e)) new" "(\<exists>xs. collect rs = Inr xs) \<longrightarrow> returned new"
    by blast
  have p: "promise_all (map (tree_item_for cfg w tok) files) t = (collect rs, t')"
    by (simp add: promise_all_def r)
  have "list_all (\<lambda>e. P (fst e)) new" using n(2) assms by (auto simp: list_all_iff)
  moreover have "case collect rs of Inr x \<Rightarrow> returned new | Inl e \<Rightarrow> halted new"
    using n(2,3) by (auto split: sum.splits intro: blobs_halted)
  ultimately show "\<exists>new. snd (promise_all (map (tree_item_for cfg w tok) files) t) = t @ new \<and>
      list_all (\<lambda>e. P (fst e)) new \<and>
      (case fst (promise_all (map (tree_item_for cfg w tok) files) t) of
         Inr x \<Rightarrow> returned new | Inl e \<Rightarrow> halted new)"
    using p n(1) by auto
qed

lemma create_blob_hosting: "is_create_blob c \<Longrightarrow> hosting_or_log c"
  by (auto simp: is_create_blob_def hosting_or_log_def split: call.splits)

lemma io_ok_createCandidatePR: "io_ok hosting_or_log (createCandidatePR cfg w tok s cid)"
  unfolding createCandidatePR_def
  by (rule io_ok_bind io_ok_call_text io_ok_call_unit io_ok_call_pull io_ok_log io_ok_return
        io_ok_tree_items
      | erule create_blob_hosting
      | simp add: hosting_or_log_def)+

lemma hosting_publication: "hosting_or_log c \<Longrightarrow> publication_call c"
  by (auto simp: publication_call_def hosting_or_log_def split: call.splits)

lemma io_ok_getOctokit: "io_ok publication_call (getOctokit cfg w)"
  unfolding getOctokit_def
  by (auto intro: io_ok_throw io_ok_call_text simp: publication_call_def)

lemma io_ok_publish: "io_ok publication_call (publish cfg w s cid)"
proof (cases "IS_LOCAL_DEV cfg \<and> \<not> truthy (GITHUB_PRIVATE_KEY_SAFE cfg)")
  case True
  then have "publish cfg w s cid =
      io_bind (context_log ''[LOCAL_DEV] Skipping GitHub PR creation (credentials not configured)'')
        (\<lambda>_. io_return mock_pr_url)"
    by (simp add: publish_def)
  then show ?thesis
    by (simp add: io_ok_bind io_ok_log io_ok_return publication_call_def)
next
  case False
  then have "publish cfg w s cid =
      io_bind (getOctokit cfg w) (\<lambda>octokit. createCandidatePR cfg w octokit s cid)"
    by (auto simp add: publish_def)
  then show ?thesis
    using io_ok_weaken [OF io_ok_createCandidatePR hosting_publication]
    by (simp add: io_ok_bind io_ok_getOctokit)
qed

lemma io_ok_verifyTurnstile: "io_ok (\<lambda>c. True) (verifyTurnstile cfg w token)"
  unfolding verifyTurnstile_def by (simp add: io_ok_return io_ok_call_flag)

lemma io_ok_storeContactInfo: "io_ok (\<lambda>c. True) (storeContactInfo cfg w r)"
  unfolding storeContactInfo_def by (simp add: io_ok_bind io_ok_call_unit)

lemma io_ok_accept: "io_ok (\<lambda>c. True) (accept_submission cfg w s hs)"
proof -
  have p: "io_ok (\<lambda>c. True) (publish cfg w s cid)" for cid
    by (rule io_ok_weaken [OF io_ok_publish]) simp
  show ?thesis
    unfolding accept_submission_def
    by (rule io_ok_bind io_ok_return io_ok_storeContactInfo io_ok_log
          io_ok_randomUUID io_ok_date p | simp)+
qed

lemma io_ok_process: "io_ok (\<lambda>c. True) (process_submission cfg w request hs)"
proof (cases "json_body request")
  case None
  then show ?thesis by (simp add: process_submission_def io_ok_throw)
next
  case (Some s)
  show ?thesis
  proof (cases "0 < length (validation_errors s)")
    case True
    then show ?thesis by (simp add: process_submission_def Some io_ok_return)
  next
    case False
    have "io_ok (\<lambda>c. True)
        (if \<not> v then io_return (token_response hs) else accept_submission cfg w s hs)" for v
      by (simp add: io_ok_return io_ok_accept)
    then have "io_ok (\<lambda>c. True) (io_bind (verifyTurnstile cfg w (turnstileToken s))
        (\<lambda>v. if \<not> v then io_return (token_response hs) else accept_submission cfg w s hs))"
      by (intro io_ok_bind io_ok_verifyTurnstile)
    then show ?thesis using False by (simp add: process_submission_def Some)
  qed
qed

lemma accept_success:
  assumes "accept_submission cfg w s hs t = (Inr resp, t')"
  shows "\<exists>prUrl tp.
      publish cfg w s (fresh_uuid w t) (t @ [(RandomUUID, Returned)]) = (Inr prUrl, tp) \<and>
      t' = tp @ (DateNow, Returned) #
             store_events cfg (contact_record s (fresh_uuid w t) (clock w tp) prUrl) \<and>
      resp = success_response hs (fresh_uuid w t) prUrl"
  using assms
  by (auto simp: accept_submission_def io_bind_def randomUUID_def date_now_iso_def
      storeContactInfo_def call_unit_def context_log_def io_return_def store_events_def
      contact_record_def
      split: prod.splits sum.splits if_splits)

lemma process_success:
  assumes "process_submission cfg w request hs t = (Inr resp, t')" and "status resp = 200"
  shows "\<exists>s tv. json_body request = Some s \<and> validation_errors s = [] \<and>
      verifyTurnstile cfg w (turnstileToken s) t = (Inr True, tv) \<and>
      accept_submission cfg w s hs tv = (Inr resp, t')"
  using assms
  by (auto simp: process_submission_def io_bind_def io_return_def io_throw_def
      validation_response_def token_response_def
      split: option.splits prod.splits sum.splits if_splits)

lemma submit_200:
  assumes "status (fst (submitCandidate cfg w request t0)) = 200"
  shows "\<exists>resp t'. process_submission cfg w request (getCorsHeaders cfg request)
           (t0 @ [(ContextLog ''Processing candidate submission request'', Returned)]) = (Inr resp, t')
         \<and> submitCandidate cfg w request t0 = (resp, t')"
  using assms
  by (auto simp: submitCandidate_def Let_def error_response_def
      split: prod.splits sum.splits if_splits)

lemma io_bind_InrE:
  assumes "io_bind m f t = (Inr y, t')"
  obtains x tm where "m t = (Inr x, tm)" and "f x tm = (Inr y, t')"
  using assms by (auto simp: io_bind_def split: prod.splits sum.splits)

lemma io_bind_Inr_iff:
  "(io_bind m f t = (Inr y, t')) = (\<exists>x tm. m t = (Inr x, tm) \<and> f x tm = (Inr y, t'))"
  by (auto simp: io_bind_def split: prod.splits sum.splits)

lemma io_ok_appends:
  assumes "io_ok P m" and "m t = (r, t')"
  obtains new where "t' = t @ new" and "list_all (\<lambda>e. P (fst e)) new"
    and "(\<exists>x. r = Inr x) \<longrightarrow> returned new" and "(\<exists>e. r = Inl e) \<longrightarrow> halted new"
proof -
  from assms(1) obtain new where n: "snd (m t) = t @ new" "list_all (\<lambda>e. P (fst e)) new"
    "case fst (m t) of Inr x \<Rightarrow> returned new | Inl e \<Rightarrow> halted new"
    unfolding io_ok_def by blast
  show ?thesis
    using n assms(2) by (intro that [of new]) (auto split: sum.splits)
qed

lemma createCandidatePR_url:
  assumes "createCandidatePR cfg w tok s cid t = (Inr url, t')"
  shows "\<exists>h n base.
     reply_pull w h (GitHub tok
        (PullsCreate (GITHUB_REPO_OWNER cfg) (GITHUB_REPO_NAME cfg)
           (commit_message s) (pr_body s cid) (branchName (lower_case w) s cid)
           (GITHUB_REPO_OWNER cfg @ ''/'' @ GITHUB_FORM_REPO_NAME cfg) base True)) = Some (n, url) \<and>
     t' = h @ [(GitHub tok
        (PullsCreate (GITHUB_REPO_OWNER cfg) (GITHUB_REPO_NAME cfg)
           (commit_message s) (pr_body s cid) (branchName (lower_case w) s cid)
           (GITHUB_REPO_OWNER cfg @ ''/'' @ GITHUB_FORM_REPO_NAME cfg) base True), Returned),
        (ContextLog (''Created PR #'' @ show_nat n @ '': '' @ url), Returned)]"
  using assms unfolding createCandidatePR_def
  by (elim io_bind_InrE) (auto simp: call_pull_def context_log_def io_return_def split: option.splits)

lemma publish_skip:
  "IS_LOCAL_DEV cfg \<and> \<not> truthy (GITHUB_PRIVATE_KEY_SAFE cfg) \<Longrightarrow>
   publish cfg w s cid t =
     (Inr mock_pr_url,
      t @ [(ContextLog ''[LOCAL_DEV] Skipping GitHub PR creation (credentials not configured)'', Returned)])"
  by (simp add: publish_def io_bind_def context_log_def io_return_def)

lemma publish_url:
  assumes "\<not> (IS_LOCAL_DEV cfg \<and> \<not> truthy (GITHUB_PRIVATE_KEY_SAFE cfg))"
    and "publish cfg w s cid t = (Inr url, t')"
  shows "\<exists>h n base tok.
     reply_pull w h (GitHub tok
        (PullsCreate (GITHUB_REPO_OWNER cfg) (GITHUB_REPO_NAME cfg)
           (commit_message s) (pr_body s cid) (branchName (lower_case w) s cid)
           (GITHUB_REPO_OWNER cfg @ ''/'' @ GITHUB_FORM_REPO_NAME cfg) base True)) = Some (n, url) \<and>
     t' = h @ [(GitHub tok
        (PullsCreate (GITHUB_REPO_OWNER cfg) (GITHUB_REPO_NAME cfg)
           (commit_message s) (pr_body s cid) (branchName (lower_case w) s cid)
           (GITHUB_REPO_OWNER cfg @ ''/'' @ GITHUB_FORM_REPO_NAME cfg) base True), Returned),
        (ContextLog (''Created PR #'' @ show_nat n @ '': '' @ url), Returned)]"
proof -
  from assms have "io_bind (getOctokit cfg w) (\<lambda>octokit. createCandidatePR cfg w octokit s cid) t = (Inr url, t')"
    by (auto simp: publish_def)
  then obtain tok tm where "createCandidatePR cfg w tok s cid tm = (Inr url, t')"
    unfolding io_bind_Inr_iff by blast
  from createCandidatePR_url [OF this] show ?thesis by blast
qed

lemma uploads_append: "uploads (a @ b) = uploads a @ uploads b"
  by (induction a rule: uploads.induct) auto

lemma uploads_none: "list_all (\<lambda>e. \<not> is_store_call (fst e)) evs \<Longrightarrow> uploads evs = []"
  by (induction evs rule: uploads.induct) (auto simp: is_store_call_def)

lemma uploads_store_events: "uploads (store_events cfg r) = [(correlationId r @ ''.json'', r)]"
  by (simp add: store_events_def)

lemma publication_not_store: "publication_call c \<Longrightarrow> \<not> is_store_call c"
  by (auto simp: publication_call_def is_store_call_def split: call.splits)

lemma verifyTurnstile_True:
  assumes "verifyTurnstile cfg w token t = (Inr True, t')"
  shows "\<exists>new. t' = t @ new \<and> list_all (\<lambda>e. \<not> is_store_call (fst e)) new"
  using assms
  by (auto simp: verifyTurnstile_def io_return_def call_flag_def is_store_call_def
      split: if_splits option.splits)

lemma process_statuses:
  assumes "process_submission cfg w request hs t = (Inr resp, t')"
  shows "status resp = 200 \<or> status resp = 400 \<or> status resp = 401"
  using assms
  by (auto simp: process_submission_def io_bind_def io_return_def io_throw_def
      validation_response_def token_response_def success_response_def
      dest!: accept_success
      split: option.splits prod.splits sum.splits if_splits)

lemma submit_split:
  "http_method request \<noteq> ''OPTIONS'' \<Longrightarrow>
   submitCandidate cfg w request t0 =
     (case process_submission cfg w request (getCorsHeaders cfg request) (t0 @ [first_log]) of
        (Inr response, t2) \<Rightarrow> (response, t2)
      | (Inl e, t2) \<Rightarrow> (error_response (getCorsHeaders cfg request), t2 @ [error_log]))"
  by (simp add: submitCandidate_def Let_def first_log_def error_log_def split: prod.splits sum.splits)

lemma submit_options:
  "http_method request = ''OPTIONS'' \<Longrightarrow>
   submitCandidate cfg w request t0 =
     (\<lparr> status = 204, headers = getCorsHeaders cfg request, jsonBody = None \<rparr>, t0 @ [first_log])"
  by (simp add: submitCandidate_def Let_def first_log_def)

lemma submit_500:
  assumes "status (fst (submitCandidate cfg w request t0)) = 500"
  shows "\<exists>e new. process_submission cfg w request (getCorsHeaders cfg request) (t0 @ [first_log]) =
            (Inl e, t0 @ first_log # new) \<and> halted new \<and>
          submitCandidate cfg w request t0 =
            (error_response (getCorsHeaders cfg request), t0 @ first_log # new @ [error_log])"
proof -
  let ?hs = "getCorsHeaders cfg request"
  have m: "http_method request \<noteq> ''OPTIONS''"
    using assms submit_options [of request cfg w t0] by auto
  obtain r t2 where p: "process_submission cfg w request ?hs (t0 @ [first_log]) = (r, t2)"
    by (cases "process_submission cfg w request ?hs (t0 @ [first_log])")
  from io_ok_appends [OF io_ok_process p] obtain new where
    n: "t2 = (t0 @ [first_log]) @ new" "(\<exists>e. r = Inl e) \<longrightarrow> halted new" by blast
  show ?thesis
  proof (cases r)
    case (Inl e)
    with p n m show ?thesis by (simp add: submit_split)
  next
    case (Inr resp)
    with process_statuses [of cfg w request ?hs "t0 @ [first_log]" resp t2] p
    have "status resp \<noteq> 500" by auto
    with Inr p m assms show ?thesis by (simp add: submit_split)
  qed
qed

lemma threw_500:
  assumes "(c, Threw) \<in> set (drop (length t0) (snd (submitCandidate cfg w request t0)))"
  shows "status (fst (submitCandidate cfg w request t0)) = 500"
proof -
  let ?hs = "getCorsHeaders cfg request"
  have m: "http_method request \<noteq> ''OPTIONS''"
    using assms submit_options [of request cfg w t0] by (auto simp: first_log_def)
  obtain r t2 where p: "process_submission cfg w request ?hs (t0 @ [first_log]) = (r, t2)"
    by (cases "process_submission cfg w request ?hs (t0 @ [first_log])")
  from io_ok_appends [OF io_ok_process p] obtain new where
    n: "t2 = (t0 @ [first_log]) @ new" "(\<exists>x. r = Inr x) \<longrightarrow> returned new" by blast
  show ?thesis
  proof (cases r)
    case (Inl e)
    with p m show ?thesis by (simp add: submit_split error_response_def)
  next
    case (Inr resp)
    with n have "returned new" by simp
    with Inr p m n(1) assms have False
      by (auto simp: submit_split first_log_def returned_def list_all_iff)
    then show ?thesis ..
  qed
qed

lemma config_error_500:
  assumes "http_method request \<noteq> ''OPTIONS''" and "json_body request = Some s"
    and "validation_errors s = []"
    and "verifyTurnstile cfg w (turnstileToken s) (t0 @ [first_log]) = (Inr True, tv)"
    and "\<not> IS_LOCAL_DEV cfg" and "\<not> truthy (GITHUB_PRIVATE_KEY_SAFE cfg)"
  shows "submitCandidate cfg w request t0 =
     (error_response (getCorsHeaders cfg request), tv @ [(RandomUUID, Returned), error_log])"
  using assms
  by (simp add: submit_split process_submission_def accept_submission_def publish_def
      getOctokit_def io_bind_def io_throw_def randomUUID_def)

lemma invalid_body_500:
  assumes "http_method request \<noteq> ''OPTIONS''" and "json_body request = None"
  shows "submitCandidate cfg w request t0 =
     (error_response (getCorsHeaders cfg request), t0 @ [first_log, error_log])"
  using assms by (simp add: submit_split process_submission_def io_throw_def)

lemma not_returned_threw: "\<not> returned evs \<Longrightarrow> \<exists>c. (c, Threw) \<in> set evs"
  unfolding returned_def list_all_iff
  by (metis outcome.exhaust prod.collapse)

lemma verifyTurnstile_True_remote:
  assumes "\<not> IS_LOCAL_DEV cfg" and "verifyTurnstile cfg w token t = (Inr True, tv)"
  shows "tv = t @ [(TurnstileSiteverify (TURNSTILE_SECRET_KEY cfg) token, Returned)]"
  using assms by (auto simp: verifyTurnstile_def call_flag_def split: option.splits)

lemma process_headers:
  assumes "process_submission cfg w request hs t = (Inr resp, t')"
  shows "headers resp = hs"
  using assms
  by (auto simp: process_submission_def io_bind_def io_return_def io_throw_def
      validation_response_def token_response_def success_response_def
      dest!: accept_success
      split: option.splits prod.splits sum.splits if_splits)

lemma submit_headers: "headers (fst (submitCandidate cfg w request t0)) = getCorsHeaders cfg request"
proof (cases "http_method request = ''OPTIONS''")
  case True
  then show ?thesis by (simp add: submit_options)
next
  case False
  obtain r t2 where p: "process_submission cfg w request (getCorsHeaders cfg request) (t0 @ [first_log]) = (r, t2)"
    by (cases "process_submission cfg w request (getCorsHeaders cfg request) (t0 @ [first_log])")
  show ?thesis
  proof (cases r)
    case (Inl e)
    with p False show ?thesis by (simp add: submit_split error_response_def)
  next
    case (Inr resp)
    with p False process_headers [of cfg w request _ _ resp t2] show ?thesis
      by (simp add: submit_split)
  qed
qed

lemma accepted_unfold:
  assumes "http_method request \<noteq> ''OPTIONS''" and "json_body request = Some s"
    and "validation_errors s = []"
    and "verifyTurnstile cfg w (turnstileToken s) (t0 @ [first_log]) = (Inr True, tv)"
  shows "submitCandidate cfg w request t0 =
     (case accept_submission cfg w s (getCorsHeaders cfg request) tv of
        (Inr response, t2) \<Rightarrow> (response, t2)
      | (Inl e, t2) \<Rightarrow> (error_response (getCorsHeaders cfg request), t2 @ [error_log]))"
  using assms by (simp add: submit_split process_submission_def io_bind_def)

lemma storeContactInfo_cases:
  "storeContactInfo cfg w r t =
     (let create = ContainerCreateIfNotExists (CONTACT_STORAGE_CONNECTION cfg) (CONTACT_CONTAINER_NAME cfg);
          upload = BlobUpload (CONTACT_STORAGE_CONNECTION cfg) (CONTACT_CONTAINER_NAME cfg)
                     (correlationId r @ ''.json'') r ''application/json''
      in if \<not> reply_unit w t create then (Inl (CallFailed create), t @ [(create, Threw)])
         else if \<not> reply_unit w (t @ [(create, Returned)]) upload
           then (Inl (CallFailed upload), t @ [(create, Returned), (upload, Threw)])
         else (Inr (), t @ [(create, Returned), (upload, Returned)]))"
  by (simp add: storeContactInfo_def io_bind_def call_unit_def Let_def)

lemma accept_after_publish:
  assumes "publish cfg w s (fresh_uuid w tv) (tv @ [(RandomUUID, Returned)]) = (Inr prUrl, tp)"
  shows "accept_submission cfg w s hs tv =
     (case storeContactInfo cfg w (contact_record s (fresh_uuid w tv) (clock w tp) prUrl)
             (tp @ [(DateNow, Returned)]) of
        (Inl e, t2) \<Rightarrow> (Inl e, t2)
      | (Inr u, t2) \<Rightarrow>
          (Inr (success_response hs (fresh_uuid w tv) prUrl),
           t2 @ [(ContextLog (''Stored contact info for '' @ fresh_uuid w tv), Returned)]))"
  using assms
  by (simp add: accept_submission_def io_bind_def randomUUID_def date_now_iso_def
      context_log_def io_return_def split: prod.splits sum.splits)

lemma accept_publish_failed:
  assumes "publish cfg w s (fresh_uuid w tv) (tv @ [(RandomUUID, Returned)]) = (Inl e, tp)"
  shows "accept_submission cfg w s hs tv = (Inl e, tp)"
  using assms by (simp add: accept_submission_def io_bind_def randomUUID_def)

lemma publish_no_store:
  assumes "publish cfg w s cid t = (r, tp)"
  shows "\<exists>new. tp = t @ new \<and> list_all (\<lambda>e. \<not> is_store_call (fst e)) new"
proof -
  from io_ok_appends [OF io_ok_publish assms] obtain new where
    n: "tp = t @ new" "list_all (\<lambda>e. publication_call (fst e)) new" by blast
  have "list_all (\<lambda>e. \<not> is_store_call (fst e)) new"
    using n(2) publication_not_store by (auto simp: list_all_iff)
  with n(1) show ?thesis by blast
qed

lemma before_archive:
  assumes "verifyTurnstile cfg w token (t0 @ [first_log]) = (Inr True, tv)"
    and "publish cfg w s cid (tv @ [(RandomUUID, Returned)]) = (r, tp)"
  shows "\<exists>pre. tp = t0 @ pre \<and> list_all (\<lambda>e. \<not> is_store_call (fst e)) pre"
proof -
  from verifyTurnstile_True [OF assms(1)] obtain nv where
    nv: "tv = (t0 @ [first_log]) @ nv" "list_all (\<lambda>e. \<not> is_store_call (fst e)) nv" by blast
  from publish_no_store [OF assms(2)] obtain np where
    np: "tp = (tv @ [(RandomUUID, Returned)]) @ np" "list_all (\<lambda>e. \<not> is_store_call (fst e)) np"
    by blast
  have "tp = t0 @ (first_log # nv @ (RandomUUID, Returned) # np)" using nv(1) np(1) by simp
  moreover have "list_all (\<lambda>e. \<not> is_store_call (fst e)) (first_log # nv @ (RandomUUID, Returned) # np)"
    using nv(2) np(2) by (simp add: is_store_call_def first_log_def)
  ultimately show ?thesis by blast
qed
subsection \<open>The claims about the request handler\<close>

lemma example_validates:
  "validation_errors example_submission = [] \<and>
   json_body example_request = Some example_submission \<and>
   http_method example_request \<noteq> ''OPTIONS''"
  by code_simp

text \<open>
  C1. A submission that passes the field validation and whose token the verification
  step rejects (\<^verbatim>\<open>verifyTurnstile\<close> returns \<^verbatim>\<open>false\<close>, which it does only when the
  handler is not in local development and the verification service answers
  \<^verbatim>\<open>success: false\<close>) gets the response 401 with \<^verbatim>\<open>success: false\<close>. The request has
  logged its first line and called the verification service, and nothing else: no
  correlation ID is minted, the hosting API is not called (no branch, no commit), and
  no contact record is written.
\<close>

theorem rejected_token_is_401_without_side_effects:
  "json_body request = Some s \<and> validation_errors s = [] \<and>
   http_method request \<noteq> ''OPTIONS'' \<and>
   fst (verifyTurnstile cfg w (turnstileToken s) (t0 @ [first_log])) = Inr False \<longrightarrow>
     fst (submitCandidate cfg w request t0) = token_response (getCorsHeaders cfg request) \<and>
     status (fst (submitCandidate cfg w request t0)) = 401 \<and>
     jsonBody (fst (submitCandidate cfg w request t0)) =
       Some \<lparr> success = False, message = ''Invalid security token'', errors = None,
              resp_correlationId = None, resp_pullRequestUrl = None \<rparr> \<and>
     snd (submitCandidate cfg w request t0) =
       t0 @ [first_log,
             (TurnstileSiteverify (TURNSTILE_SECRET_KEY cfg) (turnstileToken s), Returned)] \<and>
     list_all (\<lambda>e. \<not> is_side_effect (fst e))
       (drop (length t0) (snd (submitCandidate cfg w request t0))) \<and>
     uploads (drop (length t0) (snd (submitCandidate cfg w request t0))) = [] \<and>
     \<not> IS_LOCAL_DEV cfg"
proof (intro impI, elim conjE)
  assume h: "json_body request = Some s" "validation_errors s = []"
    "http_method request \<noteq> ''OPTIONS''"
    "fst (verifyTurnstile cfg w (turnstileToken s) (t0 @ [first_log])) = Inr False"
  obtain t2 where v: "verifyTurnstile cfg w (turnstileToken s) (t0 @ [first_log]) = (Inr False, t2)"
    using h(4) by (cases "verifyTurnstile cfg w (turnstileToken s) (t0 @ [first_log])") simp
  from v have l: "\<not> IS_LOCAL_DEV cfg"
    and t2: "t2 = (t0 @ [first_log]) @
        [(TurnstileSiteverify (TURNSTILE_SECRET_KEY cfg) (turnstileToken s), Returned)]"
    unfolding verifyTurnstile_False by simp_all
  have r: "submitCandidate cfg w request t0 = (token_response (getCorsHeaders cfg request), t2)"
    using submitCandidate_rejected [OF h(1) h(2) h(3)] v by (simp add: first_log_def)
  show "fst (submitCandidate cfg w request t0) = token_response (getCorsHeaders cfg request) \<and>
     status (fst (submitCandidate cfg w request t0)) = 401 \<and>
     jsonBody (fst (submitCandidate cfg w request t0)) =
       Some \<lparr> success = False, message = ''Invalid security token'', errors = None,
              resp_correlationId = None, resp_pullRequestUrl = None \<rparr> \<and>
     snd (submitCandidate cfg w request t0) =
       t0 @ [first_log,
             (TurnstileSiteverify (TURNSTILE_SECRET_KEY cfg) (turnstileToken s), Returned)] \<and>
     list_all (\<lambda>e. \<not> is_side_effect (fst e))
       (drop (length t0) (snd (submitCandidate cfg w request t0))) \<and>
     uploads (drop (length t0) (snd (submitCandidate cfg w request t0))) = [] \<and>
     \<not> IS_LOCAL_DEV cfg"
    using l by (simp add: r t2 token_response_def is_side_effect_def first_log_def)
qed

lemma rejecting_run:
  "fst (verifyTurnstile example_config rejecting_world (turnstileToken example_submission)
         ([] @ [first_log])) = Inr False"
  by code_simp

theorem rejected_token_is_401_without_side_effects_witness:
  "fst (verifyTurnstile example_config rejecting_world (turnstileToken example_submission)
         ([] @ [first_log])) = Inr False \<and>
   status (fst (submitCandidate example_config rejecting_world example_request [])) = 401 \<and>
   snd (submitCandidate example_config rejecting_world example_request []) =
     [first_log,
      (TurnstileSiteverify (TURNSTILE_SECRET_KEY example_config)
         (turnstileToken example_submission), Returned)]"
proof -
  note t = rejected_token_is_401_without_side_effects
    [of example_request example_submission example_config rejecting_world "[]"]
  from t example_validates rejecting_run
  have "status (fst (submitCandidate example_config rejecting_world example_request [])) = 401 \<and>
     snd (submitCandidate example_config rejecting_world example_request []) =
       [] @ [first_log,
             (TurnstileSiteverify (TURNSTILE_SECRET_KEY example_config)
                (turnstileToken example_submission), Returned)]"
    by blast
  with rejecting_run show ?thesis by simp
qed

text \<open>
  C2. The validator checks candidate name, position title, contact email, verification
  token and body content for non-emptiness, in that order, and collects the message of
  every field that is empty: the error list is the list of the messages of the empty
  fields, in the order of the fields. A submission that misses only the contact email and
  the token gets exactly the two messages of these fields, in that order. A submission
  with at least one error is answered with the status 400 and \<^verbatim>\<open>success: false\<close>, and
  the request has made no call but its first log line.
\<close>

theorem validation_errors_in_field_order:
  "validation_errors s = map snd (filter (\<lambda>p. fst p = []) (required_fields s)) \<and>
   (candidate s \<noteq> [] \<and> title s \<noteq> [] \<and> content s \<noteq> [] \<and>
    contactEmail s = [] \<and> turnstileToken s = [] \<longrightarrow>
      validation_errors s = [''Contact email is required'', ''Turnstile token is required'']) \<and>
   (json_body request = Some s \<and> http_method request \<noteq> ''OPTIONS'' \<and>
    validation_errors s \<noteq> [] \<longrightarrow>
      status (fst (submitCandidate cfg w request t0)) = 400 \<and>
      jsonBody (fst (submitCandidate cfg w request t0)) =
        Some \<lparr> success = False, message = ''Validation failed'',
               errors = Some (validation_errors s),
               resp_correlationId = None, resp_pullRequestUrl = None \<rparr> \<and>
      snd (submitCandidate cfg w request t0) = t0 @ [first_log])"
proof -
  have a: "validation_errors s = map snd (filter (\<lambda>p. fst p = []) (required_fields s))"
    by (rule validation_errors_filter)
  have b: "candidate s \<noteq> [] \<and> title s \<noteq> [] \<and> content s \<noteq> [] \<and>
    contactEmail s = [] \<and> turnstileToken s = [] \<longrightarrow>
      validation_errors s = [''Contact email is required'', ''Turnstile token is required'']"
    by (simp add: validation_errors_def push_if_def Let_def)
  have c: "json_body request = Some s \<and> http_method request \<noteq> ''OPTIONS'' \<and>
    validation_errors s \<noteq> [] \<longrightarrow>
      status (fst (submitCandidate cfg w request t0)) = 400 \<and>
      jsonBody (fst (submitCandidate cfg w request t0)) =
        Some \<lparr> success = False, message = ''Validation failed'',
               errors = Some (validation_errors s),
               resp_correlationId = None, resp_pullRequestUrl = None \<rparr> \<and>
      snd (submitCandidate cfg w request t0) = t0 @ [first_log]"
    using submitCandidate_invalid [of request s cfg w t0]
    by (auto simp: validation_response_def first_log_def)
  from a b c show ?thesis by blast
qed

lemma missing_contact_fields:
  "json_body missing_contact_request =
     Some (example_submission \<lparr> contactEmail := [], turnstileToken := [] \<rparr>) \<and>
   http_method missing_contact_request \<noteq> ''OPTIONS'' \<and>
   candidate (example_submission \<lparr> contactEmail := [], turnstileToken := [] \<rparr>) \<noteq> [] \<and>
   title (example_submission \<lparr> contactEmail := [], turnstileToken := [] \<rparr>) \<noteq> [] \<and>
   content (example_submission \<lparr> contactEmail := [], turnstileToken := [] \<rparr>) \<noteq> [] \<and>
   contactEmail (example_submission \<lparr> contactEmail := [], turnstileToken := [] \<rparr>) = [] \<and>
   turnstileToken (example_submission \<lparr> contactEmail := [], turnstileToken := [] \<rparr>) = []"
  by (simp add: missing_contact_request_def example_request_def example_submission_def)

theorem validation_errors_in_field_order_witness:
  "validation_errors (example_submission \<lparr> contactEmail := [], turnstileToken := [] \<rparr>) =
     [''Contact email is required'', ''Turnstile token is required''] \<and>
   status (fst (submitCandidate example_config example_world missing_contact_request [])) = 400 \<and>
   snd (submitCandidate example_config example_world missing_contact_request []) = [first_log]"
proof -
  note t = validation_errors_in_field_order
    [of "example_submission \<lparr> contactEmail := [], turnstileToken := [] \<rparr>"
        missing_contact_request example_config example_world "[]"]
  from t missing_contact_fields
  have e: "validation_errors (example_submission \<lparr> contactEmail := [], turnstileToken := [] \<rparr>) =
     [''Contact email is required'', ''Turnstile token is required'']" by blast
  then have "validation_errors (example_submission \<lparr> contactEmail := [], turnstileToken := [] \<rparr>) \<noteq> []"
    by simp
  with t missing_contact_fields e show ?thesis by simp
qed

text \<open>
  C8 (amended). For every accepted submission (the validation passes and the token is
  verified) whose publication step completes, with a pull request or with the explicit
  skip, one contact record is created immediately afterwards: the next events are the
  time stamp and the calls of the store. The record holds the correlation ID, the time
  stamp, the contact fields, the candidate name and the pull-request URL, which is the
  URL the pull-request call returned and, when the publication was skipped, the
  placeholder \<^verbatim>\<open>http://localhost:mock-pr-url\<close>, not the empty string. The record is
  uploaded once, under the name of the correlation ID, and nothing is written to the
  store before or after: the request ends with the log line and the response 200, which
  carries the same correlation ID and URL. When the store fails (the container cannot be
  created, or the upload throws) the record is not persisted, nothing is tried again and
  the response is 500. When the publication step fails, no record is created and the
  store is not called.
\<close>

theorem contact_record_stored_once:
  assumes "http_method request \<noteq> ''OPTIONS''" and "json_body request = Some s"
    and "validation_errors s = []"
    and "verifyTurnstile cfg w (turnstileToken s) (t0 @ [first_log]) = (Inr True, tv)"
  shows
   "(publish cfg w s (fresh_uuid w tv) (tv @ [(RandomUUID, Returned)]) = (Inr prUrl, tp) \<longrightarrow>
      (\<exists>r. r = \<lparr> correlationId = fresh_uuid w tv, submittedAt = clock w tp,
                 rec_contactEmail = contactEmail s, rec_contactPhone = contactPhone s,
                 rec_contactNotes = contactNotes s, rec_submitterName = submitterName s,
                 rec_submitterRelationship = submitterRelationship s,
                 candidateName = candidate s, pullRequestUrl = prUrl \<rparr> \<and>
        (submitCandidate cfg w request t0 =
           (success_response (getCorsHeaders cfg request) (fresh_uuid w tv) prUrl,
            tp @ [(DateNow, Returned), (create_container_call cfg, Returned),
                  (upload_call cfg r, Returned),
                  (ContextLog (''Stored contact info for '' @ fresh_uuid w tv), Returned)]) \<or>
         submitCandidate cfg w request t0 =
           (error_response (getCorsHeaders cfg request),
            tp @ [(DateNow, Returned), (create_container_call cfg, Returned),
                  (upload_call cfg r, Threw), error_log]) \<or>
         submitCandidate cfg w request t0 =
           (error_response (getCorsHeaders cfg request),
            tp @ [(DateNow, Returned), (create_container_call cfg, Threw), error_log]))) \<and>
      (\<exists>pre. tp = t0 @ pre \<and> list_all (\<lambda>e. \<not> is_store_call (fst e)) pre) \<and>
      (IS_LOCAL_DEV cfg \<and> \<not> truthy (GITHUB_PRIVATE_KEY_SAFE cfg) \<longrightarrow> prUrl = mock_pr_url) \<and>
      (\<not> (IS_LOCAL_DEV cfg \<and> \<not> truthy (GITHUB_PRIVATE_KEY_SAFE cfg)) \<longrightarrow>
         (\<exists>h n base tok.
            reply_pull w h (pull_request_call cfg w tok s (fresh_uuid w tv) base) = Some (n, prUrl) \<and>
            tp = h @ [(pull_request_call cfg w tok s (fresh_uuid w tv) base, Returned),
                      (ContextLog (''Created PR #'' @ show_nat n @ '': '' @ prUrl), Returned)]))) \<and>
    (publish cfg w s (fresh_uuid w tv) (tv @ [(RandomUUID, Returned)]) = (Inl e, tp) \<longrightarrow>
      submitCandidate cfg w request t0 = (error_response (getCorsHeaders cfg request), tp @ [error_log]) \<and>
      (\<exists>pre. tp = t0 @ pre \<and> list_all (\<lambda>e. \<not> is_store_call (fst e)) pre))"
proof (intro conjI impI)
  assume p: "publish cfg w s (fresh_uuid w tv) (tv @ [(RandomUUID, Returned)]) = (Inr prUrl, tp)"
  let ?r = "contact_record s (fresh_uuid w tv) (clock w tp) prUrl"
  have c: "correlationId ?r = fresh_uuid w tv" by (simp add: contact_record_def)
  have "submitCandidate cfg w request t0 =
           (success_response (getCorsHeaders cfg request) (fresh_uuid w tv) prUrl,
            tp @ [(DateNow, Returned), (create_container_call cfg, Returned),
                  (upload_call cfg ?r, Returned),
                  (ContextLog (''Stored contact info for '' @ fresh_uuid w tv), Returned)]) \<or>
         submitCandidate cfg w request t0 =
           (error_response (getCorsHeaders cfg request),
            tp @ [(DateNow, Returned), (create_container_call cfg, Returned),
                  (upload_call cfg ?r, Threw), error_log]) \<or>
         submitCandidate cfg w request t0 =
           (error_response (getCorsHeaders cfg request),
            tp @ [(DateNow, Returned), (create_container_call cfg, Threw), error_log])"
    unfolding accepted_unfold [OF assms] accept_after_publish [OF p] storeContactInfo_cases
      create_container_call_def upload_call_def c
    by (simp add: Let_def)
  then show "\<exists>r. r = \<lparr> correlationId = fresh_uuid w tv, submittedAt = clock w tp,
                 rec_contactEmail = contactEmail s, rec_contactPhone = contactPhone s,
                 rec_contactNotes = contactNotes s, rec_submitterName = submitterName s,
                 rec_submitterRelationship = submitterRelationship s,
                 candidateName = candidate s, pullRequestUrl = prUrl \<rparr> \<and>
        (submitCandidate cfg w request t0 =
           (success_response (getCorsHeaders cfg request) (fresh_uuid w tv) prUrl,
            tp @ [(DateNow, Returned), (create_container_call cfg, Returned),
                  (upload_call cfg r, Returned),
                  (ContextLog (''Stored contact info for '' @ fresh_uuid w tv), Returned)]) \<or>
         submitCandidate cfg w request t0 =
           (error_response (getCorsHeaders cfg request),
            tp @ [(DateNow, Returned), (create_container_call cfg, Returned),
                  (upload_call cfg r, Threw), error_log]) \<or>
         submitCandidate cfg w request t0 =
           (error_response (getCorsHeaders cfg request),
            tp @ [(DateNow, Returned), (create_container_call cfg, Threw), error_log]))"
    by (intro exI [of _ ?r]) (simp add: contact_record_def)
  show "\<exists>pre. tp = t0 @ pre \<and> list_all (\<lambda>e. \<not> is_store_call (fst e)) pre"
    by (rule before_archive [OF assms(4) p])
  show "prUrl = mock_pr_url" if "IS_LOCAL_DEV cfg \<and> \<not> truthy (GITHUB_PRIVATE_KEY_SAFE cfg)"
    using p publish_skip [OF that, of w s "fresh_uuid w tv" "tv @ [(RandomUUID, Returned)]"] by simp
  show "\<exists>h n base tok.
            reply_pull w h (pull_request_call cfg w tok s (fresh_uuid w tv) base) = Some (n, prUrl) \<and>
            tp = h @ [(pull_request_call cfg w tok s (fresh_uuid w tv) base, Returned),
                      (ContextLog (''Created PR #'' @ show_nat n @ '': '' @ prUrl), Returned)]"
    if "\<not> (IS_LOCAL_DEV cfg \<and> \<not> truthy (GITHUB_PRIVATE_KEY_SAFE cfg))"
    using publish_url [OF that p] unfolding pull_request_call_def by blast
next
  assume p: "publish cfg w s (fresh_uuid w tv) (tv @ [(RandomUUID, Returned)]) = (Inl e, tp)"
  show "submitCandidate cfg w request t0 =
      (error_response (getCorsHeaders cfg request), tp @ [error_log])"
    unfolding accepted_unfold [OF assms] accept_publish_failed [OF p] by simp
  show "\<exists>pre. tp = t0 @ pre \<and> list_all (\<lambda>e. \<not> is_store_call (fst e)) pre"
    by (rule before_archive [OF assms(4) p])
qed


lemma accepted_example:
  "http_method example_request \<noteq> ''OPTIONS'' \<and>
   json_body example_request = Some example_submission \<and>
   validation_errors example_submission = [] \<and>
   fst (verifyTurnstile example_config example_world (turnstileToken example_submission)
          ([] @ [first_log])) = Inr True \<and>
   fst (publish example_config example_world example_submission
          (fresh_uuid example_world
             (snd (verifyTurnstile example_config example_world (turnstileToken example_submission)
                ([] @ [first_log]))))
          (snd (verifyTurnstile example_config example_world (turnstileToken example_submission)
                ([] @ [first_log])) @ [(RandomUUID, Returned)])) =
     Inr ''https://github.com/democracycandidate/democracycandidate/pull/7'' \<and>
   status (fst (submitCandidate example_config example_world example_request [])) = 200 \<and>
   fresh_uuid example_world
     (snd (verifyTurnstile example_config example_world (turnstileToken example_submission)
        ([] @ [first_log]))) = example_uuid"
  by code_simp

theorem contact_record_stored_once_witness:
  "\<exists>tp r.
     snd (submitCandidate example_config example_world example_request []) =
       tp @ [(DateNow, Returned), (create_container_call example_config, Returned),
             (upload_call example_config r, Returned),
             (ContextLog (''Stored contact info for '' @ example_uuid), Returned)] \<and>
     correlationId r = example_uuid \<and>
     candidateName r = candidate example_submission \<and>
     pullRequestUrl r = ''https://github.com/democracycandidate/democracycandidate/pull/7''"
proof -
  define tv where "tv = snd (verifyTurnstile example_config example_world
      (turnstileToken example_submission) ([] @ [first_log]))"
  define tp where "tp = snd (publish example_config example_world example_submission
      (fresh_uuid example_world tv) (tv @ [(RandomUUID, Returned)]))"
  note x = accepted_example [folded tv_def]
  from x have v1: "fst (verifyTurnstile example_config example_world
      (turnstileToken example_submission) ([] @ [first_log])) = Inr True" by blast
  have v: "verifyTurnstile example_config example_world (turnstileToken example_submission)
      ([] @ [first_log]) = (Inr True, tv)"
    using v1 unfolding tv_def by (simp add: prod_eq_iff)
  from x have p1: "fst (publish example_config example_world example_submission
      (fresh_uuid example_world tv) (tv @ [(RandomUUID, Returned)])) =
      Inr ''https://github.com/democracycandidate/democracycandidate/pull/7''" by blast
  have p: "publish example_config example_world example_submission
      (fresh_uuid example_world tv) (tv @ [(RandomUUID, Returned)]) =
      (Inr ''https://github.com/democracycandidate/democracycandidate/pull/7'', tp)"
    using p1 unfolding tp_def by (simp add: prod_eq_iff)
  have a: "http_method example_request \<noteq> ''OPTIONS''" using x by blast
  have b: "json_body example_request = Some example_submission" using x by blast
  have c: "validation_errors example_submission = []" using x by blast
  have u: "fresh_uuid example_world tv = example_uuid" using x by blast
  have st: "status (fst (submitCandidate example_config example_world example_request [])) = 200"
    using x by blast
  note t = contact_record_stored_once [OF a b c v,
      of "''https://github.com/democracycandidate/democracycandidate/pull/7''" tp]
  from t p obtain r where
    r: "r = \<lparr> correlationId = fresh_uuid example_world tv, submittedAt = clock example_world tp,
             rec_contactEmail = contactEmail example_submission,
             rec_contactPhone = contactPhone example_submission,
             rec_contactNotes = contactNotes example_submission,
             rec_submitterName = submitterName example_submission,
             rec_submitterRelationship = submitterRelationship example_submission,
             candidateName = candidate example_submission,
             pullRequestUrl = ''https://github.com/democracycandidate/democracycandidate/pull/7'' \<rparr>"
    and d: "submitCandidate example_config example_world example_request [] =
           (success_response (getCorsHeaders example_config example_request)
              (fresh_uuid example_world tv)
              ''https://github.com/democracycandidate/democracycandidate/pull/7'',
            tp @ [(DateNow, Returned), (create_container_call example_config, Returned),
                  (upload_call example_config r, Returned),
                  (ContextLog (''Stored contact info for '' @ fresh_uuid example_world tv), Returned)]) \<or>
         submitCandidate example_config example_world example_request [] =
           (error_response (getCorsHeaders example_config example_request),
            tp @ [(DateNow, Returned), (create_container_call example_config, Returned),
                  (upload_call example_config r, Threw), error_log]) \<or>
         submitCandidate example_config example_world example_request [] =
           (error_response (getCorsHeaders example_config example_request),
            tp @ [(DateNow, Returned), (create_container_call example_config, Threw), error_log])"
    by blast
  from d st have "submitCandidate example_config example_world example_request [] =
           (success_response (getCorsHeaders example_config example_request)
              (fresh_uuid example_world tv)
              ''https://github.com/democracycandidate/democracycandidate/pull/7'',
            tp @ [(DateNow, Returned), (create_container_call example_config, Returned),
                  (upload_call example_config r, Returned),
                  (ContextLog (''Stored contact info for '' @ fresh_uuid example_world tv), Returned)])"
    by (auto simp: error_response_def)
  then have "snd (submitCandidate example_config example_world example_request []) =
       tp @ [(DateNow, Returned), (create_container_call example_config, Returned),
             (upload_call example_config r, Returned),
             (ContextLog (''Stored contact info for '' @ example_uuid), Returned)]"
    by (simp add: u)
  moreover have "correlationId r = example_uuid \<and>
     candidateName r = candidate example_submission \<and>
     pullRequestUrl r = ''https://github.com/democracycandidate/democracycandidate/pull/7''"
    by (simp add: r u)
  ultimately show ?thesis by blast
qed

theorem skipped_publication_stores_mock_url:
  "IS_LOCAL_DEV local_config \<and> GITHUB_PRIVATE_KEY_SAFE local_config = None \<and>
   status (fst (submitCandidate local_config example_world example_request [])) = 200 \<and>
   map (pullRequestUrl \<circ> snd)
     (uploads (snd (submitCandidate local_config example_world example_request []))) =
     [''http://localhost:mock-pr-url''] \<and>
   validation_errors example_submission = [] \<and>
   fst (verifyTurnstile example_config storing_world (turnstileToken example_submission)
          [first_log]) = Inr True \<and>
   list_ex (\<lambda>ev. case ev of (GitHub tok (PullsCreate a1 a2 a3 a4 a5 a6 a7 a8), Returned) \<Rightarrow> True
                   | _ \<Rightarrow> False)
     (snd (submitCandidate example_config storing_world example_request [])) \<and>
   status (fst (submitCandidate example_config storing_world example_request [])) = 500 \<and>
   uploads (snd (submitCandidate example_config storing_world example_request [])) = []"
  by code_simp

text \<open>
  C9. The response with the status 500 is always the generic body with
  \<^verbatim>\<open>success: false\<close>, the fixed message and the empty correlation ID. It is what every
  internal failure gives: a call that throws (any step of the hosting API, the
  verification call, the container or the upload), a request body that is not JSON, and
  a missing signing key, which fails before any call to the hosting API. Nothing is
  retried: after a call has thrown, the trace holds only blob creations that were already
  under way together with it, and the error log.
\<close>

theorem internal_failure_is_generic_500:
  "status (error_response (getCorsHeaders cfg request)) = 500 \<and>
   jsonBody (error_response (getCorsHeaders cfg request)) =
     Some \<lparr> success = False,
            message = ''An error occurred processing your submission. Please try again.'',
            errors = None, resp_correlationId = Some [], resp_pullRequestUrl = None \<rparr> \<and>
   (status (fst (submitCandidate cfg w request t0)) = 500 \<longrightarrow>
      fst (submitCandidate cfg w request t0) = error_response (getCorsHeaders cfg request) \<and>
      (\<exists>new. snd (submitCandidate cfg w request t0) = t0 @ first_log # new @ [error_log] \<and>
             halted new)) \<and>
   ((\<exists>c. (c, Threw) \<in> set (drop (length t0) (snd (submitCandidate cfg w request t0)))) \<longrightarrow>
      status (fst (submitCandidate cfg w request t0)) = 500) \<and>
   (http_method request \<noteq> ''OPTIONS'' \<and> json_body request = None \<longrightarrow>
      status (fst (submitCandidate cfg w request t0)) = 500) \<and>
   (http_method request \<noteq> ''OPTIONS'' \<and> json_body request = Some s \<and>
    validation_errors s = [] \<and>
    fst (verifyTurnstile cfg w (turnstileToken s) (t0 @ [first_log])) = Inr True \<and>
    \<not> IS_LOCAL_DEV cfg \<and> \<not> truthy (GITHUB_PRIVATE_KEY_SAFE cfg) \<longrightarrow>
      status (fst (submitCandidate cfg w request t0)) = 500 \<and>
      list_all (\<lambda>e. \<not> is_hosting_call (fst e))
        (drop (length t0) (snd (submitCandidate cfg w request t0))))"
proof -
  have a: "status (error_response (getCorsHeaders cfg request)) = 500" by (simp add: error_response_def)
  have b: "jsonBody (error_response (getCorsHeaders cfg request)) =
     Some \<lparr> success = False,
            message = ''An error occurred processing your submission. Please try again.'',
            errors = None, resp_correlationId = Some [], resp_pullRequestUrl = None \<rparr>"
    by (simp add: error_response_def)
  have c: "status (fst (submitCandidate cfg w request t0)) = 500 \<longrightarrow>
      fst (submitCandidate cfg w request t0) = error_response (getCorsHeaders cfg request) \<and>
      (\<exists>new. snd (submitCandidate cfg w request t0) = t0 @ first_log # new @ [error_log] \<and>
             halted new)"
    using submit_500 [of cfg w request t0] by auto
  have d: "(\<exists>c. (c, Threw) \<in> set (drop (length t0) (snd (submitCandidate cfg w request t0)))) \<longrightarrow>
      status (fst (submitCandidate cfg w request t0)) = 500"
    using threw_500 [of _ t0 cfg w request] by blast
  have e: "http_method request \<noteq> ''OPTIONS'' \<and> json_body request = None \<longrightarrow>
      status (fst (submitCandidate cfg w request t0)) = 500"
    using invalid_body_500 [of request cfg w t0] by (auto simp: error_response_def)
  have f: "http_method request \<noteq> ''OPTIONS'' \<and> json_body request = Some s \<and>
    validation_errors s = [] \<and>
    fst (verifyTurnstile cfg w (turnstileToken s) (t0 @ [first_log])) = Inr True \<and>
    \<not> IS_LOCAL_DEV cfg \<and> \<not> truthy (GITHUB_PRIVATE_KEY_SAFE cfg) \<longrightarrow>
      status (fst (submitCandidate cfg w request t0)) = 500 \<and>
      list_all (\<lambda>e. \<not> is_hosting_call (fst e))
        (drop (length t0) (snd (submitCandidate cfg w request t0)))"
  proof (intro impI, elim conjE)
    assume h: "http_method request \<noteq> ''OPTIONS''" "json_body request = Some s"
      "validation_errors s = []"
      "fst (verifyTurnstile cfg w (turnstileToken s) (t0 @ [first_log])) = Inr True"
      "\<not> IS_LOCAL_DEV cfg" "\<not> truthy (GITHUB_PRIVATE_KEY_SAFE cfg)"
    obtain tv where v: "verifyTurnstile cfg w (turnstileToken s) (t0 @ [first_log]) = (Inr True, tv)"
      using h(4) by (cases "verifyTurnstile cfg w (turnstileToken s) (t0 @ [first_log])") simp
    have tv: "tv = (t0 @ [first_log]) @ [(TurnstileSiteverify (TURNSTILE_SECRET_KEY cfg) (turnstileToken s), Returned)]"
      using verifyTurnstile_True_remote [OF h(5) v] .
    have "submitCandidate cfg w request t0 =
       (error_response (getCorsHeaders cfg request), tv @ [(RandomUUID, Returned), error_log])"
      using config_error_500 [OF h(1) h(2) h(3) v h(5) h(6)] .
    then show "status (fst (submitCandidate cfg w request t0)) = 500 \<and>
      list_all (\<lambda>e. \<not> is_hosting_call (fst e))
        (drop (length t0) (snd (submitCandidate cfg w request t0)))"
      by (simp add: tv error_response_def is_hosting_call_def first_log_def error_log_def)
  qed
  from a b c d e f show ?thesis by blast
qed

lemma failing_run:
  "\<not> returned (snd (submitCandidate example_config failing_world example_request []))"
  by code_simp

lemma keyless_run:
  "validation_errors example_submission = [] \<and>
   fst (verifyTurnstile keyless_config example_world (turnstileToken example_submission) ([] @ [first_log])) = Inr True \<and>
   \<not> IS_LOCAL_DEV keyless_config \<and> \<not> truthy (GITHUB_PRIVATE_KEY_SAFE keyless_config) \<and>
   http_method example_request \<noteq> ''OPTIONS'' \<and> json_body example_request = Some example_submission \<and>
   json_body unparsable_request = None \<and> http_method unparsable_request \<noteq> ''OPTIONS''"
  by code_simp

theorem internal_failure_is_generic_500_witness:
  "\<not> returned (snd (submitCandidate example_config failing_world example_request [])) \<and>
   status (fst (submitCandidate example_config failing_world example_request [])) = 500 \<and>
   fst (submitCandidate example_config failing_world example_request []) =
     error_response (getCorsHeaders example_config example_request) \<and>
   json_body unparsable_request = None \<and>
   status (fst (submitCandidate example_config example_world unparsable_request [])) = 500 \<and>
   \<not> truthy (GITHUB_PRIVATE_KEY_SAFE keyless_config) \<and>
   status (fst (submitCandidate keyless_config example_world example_request [])) = 500"
proof -
  note t1 = internal_failure_is_generic_500
    [of example_config example_request failing_world "[]" example_submission]
  note t2 = internal_failure_is_generic_500
    [of example_config unparsable_request example_world "[]" example_submission]
  note t3 = internal_failure_is_generic_500
    [of keyless_config example_request example_world "[]" example_submission]
  have "\<exists>c. (c, Threw) \<in> set (drop (length ([] :: event list))
      (snd (submitCandidate example_config failing_world example_request [])))"
    using not_returned_threw [OF failing_run] by simp
  with t1 have 1: "status (fst (submitCandidate example_config failing_world example_request [])) = 500"
    by blast
  with t1 have 2: "fst (submitCandidate example_config failing_world example_request []) =
     error_response (getCorsHeaders example_config example_request)" by blast
  from t2 keyless_run have 3: "status (fst (submitCandidate example_config example_world unparsable_request [])) = 500"
    by blast
  from t3 keyless_run have 4: "status (fst (submitCandidate keyless_config example_world example_request [])) = 500"
    by blast
  from 1 2 3 4 failing_run keyless_run show ?thesis by blast
qed

text \<open>
  What \<^verbatim>\<open>getCorsHeaders\<close> does: the \<^verbatim>\<open>Access-Control-Allow-Origin\<close> header of every
  response is the request's origin when that origin is in the allow-list, and the first
  entry of the allow-list otherwise (no value when the list is empty). It is always an
  entry of the allow-list, so it is the wildcard only when the wildcard itself is
  configured.
\<close>

theorem cors_origin_is_from_allow_list:
  "headers (fst (submitCandidate cfg w request t0)) = getCorsHeaders cfg request \<and>
   (or_empty (origin_header request) \<in> set (ALLOWED_ORIGINS cfg) \<longrightarrow>
      Access_Control_Allow_Origin (getCorsHeaders cfg request) =
        Some (or_empty (origin_header request))) \<and>
   (or_empty (origin_header request) \<notin> set (ALLOWED_ORIGINS cfg) \<longrightarrow>
      Access_Control_Allow_Origin (getCorsHeaders cfg request) =
        (case ALLOWED_ORIGINS cfg of [] \<Rightarrow> None | first # _ \<Rightarrow> Some first)) \<and>
   (Access_Control_Allow_Origin (getCorsHeaders cfg request) = Some v \<longrightarrow>
      v \<in> set (ALLOWED_ORIGINS cfg)) \<and>
   (''*'' \<notin> set (ALLOWED_ORIGINS cfg) \<longrightarrow>
      Access_Control_Allow_Origin (getCorsHeaders cfg request) \<noteq> Some ''*'')"
  using submit_headers [of cfg w request t0] getCors_in [of request cfg]
    getCors_out [of request cfg] getCors_member [of cfg request]
  by blast

lemma example_origins:
  "ALLOWED_ORIGINS example_config = [''https://www.democracycandidate.us''] \<and>
   or_empty (origin_header example_request) = ''https://www.democracycandidate.us'' \<and>
   or_empty (origin_header foreign_request) = ''https://evil.example''"
  by code_simp

theorem cors_origin_is_from_allow_list_witness:
  "or_empty (origin_header example_request) \<in> set (ALLOWED_ORIGINS example_config) \<and>
   Access_Control_Allow_Origin (getCorsHeaders example_config example_request) =
     Some ''https://www.democracycandidate.us'' \<and>
   or_empty (origin_header foreign_request) \<notin> set (ALLOWED_ORIGINS example_config) \<and>
   Access_Control_Allow_Origin (getCorsHeaders example_config foreign_request) =
     Some ''https://www.democracycandidate.us'' \<and>
   ''*'' \<notin> set (ALLOWED_ORIGINS example_config)"
  using cors_origin_is_from_allow_list
    [of example_config example_world example_request "[]" "''https://www.democracycandidate.us''"]
    cors_origin_is_from_allow_list
    [of example_config example_world foreign_request "[]" "''https://www.democracycandidate.us''"]
    example_origins
  by simp

text \<open>
  C10. The header is never a wildcard, says the claim, and so does the comment of
  \<^verbatim>\<open>getCorsHeaders\<close> (\<^verbatim>\<open>Always returns the specific requesting origin (not wildcard)\<close>).
  The code does not keep to it: with \<^verbatim>\<open>ALLOWED_ORIGINS="*"\<close> the allow-list is the
  wildcard alone, and a request from any origin is answered with the header \<^verbatim>\<open>*\<close>.
\<close>

theorem cors_origin_can_be_wildcard:
  "ALLOWED_ORIGINS wildcard_config = [''*''] \<and>
   Access_Control_Allow_Origin (getCorsHeaders wildcard_config foreign_request) = Some ''*''"
  by code_simp

end
